theory Spec2Isabelle
  imports Complex_Main "HOL-Library.Sublist" "HOL-Library.AList"
begin

section \<open>JavaScript strings\<close>

text \<open>
  A JavaScript string is modelled as a \<^typ>\<open>string\<close>: a list of characters, each read as
  one UTF-16 code unit in the range U+0000..U+00FF. \<open>length\<close> is then the \<open>.length\<close> of
  the source. The methods of \<open>String.prototype\<close> that the source calls are defined here
  on that range.
\<close>

definition startsWith :: "string \<Rightarrow> string \<Rightarrow> bool" where
  "startsWith s p = prefix p s"

definition endsWith :: "string \<Rightarrow> string \<Rightarrow> bool" where
  "endsWith s p = suffix p s"

definition includesStr :: "string \<Rightarrow> string \<Rightarrow> bool" where
  "includesStr s p = sublist p s"

text \<open>\<open>trim\<close> removes white space and line terminators from both ends: tab, LF, VT, FF,
  CR, space and the no-break space U+00A0 are the ones below U+0100.\<close>

definition isWhiteSpace :: "char \<Rightarrow> bool" where
  "isWhiteSpace c = ((of_char c :: nat) \<in> {9, 10, 11, 12, 13, 32, 160})"

definition trim :: "string \<Rightarrow> string" where
  "trim s = rev (dropWhile isWhiteSpace (rev (dropWhile isWhiteSpace s)))"

text \<open>\<open>toLowerCase\<close>: A..Z and the Latin-1 capitals U+00C0..U+00DE (the multiplication
  sign U+00D7 apart) move up by 32; every other code unit below U+0100 stays.\<close>

definition lowerChar :: "char \<Rightarrow> char" where
  "lowerChar c =
     (let n = (of_char c :: nat)
      in if (65 \<le> n \<and> n \<le> 90) \<or> (192 \<le> n \<and> n \<le> 222 \<and> n \<noteq> 215)
         then char_of (n + 32) else c)"

definition toLowerCase :: "string \<Rightarrow> string" where
  "toLowerCase s = map lowerChar s"

text \<open>\<open>s.split(c)\<close> for a one-character separator: never empty, \<open>''''\<close> splits to
  \<open>['''']\<close>.\<close>

fun splitOn :: "char \<Rightarrow> string \<Rightarrow> string list" where
  "splitOn c [] = [[]]"
| "splitOn c (x # xs) =
     (if x = c then [] # splitOn c xs
      else (case splitOn c xs of
              [] \<Rightarrow> [[x]]
            | s # ss \<Rightarrow> (x # s) # ss))"

fun joinWith :: "string \<Rightarrow> string list \<Rightarrow> string" where
  "joinWith d [] = []"
| "joinWith d [s] = s"
| "joinWith d (s # t # ss) = s @ d @ joinWith d (t # ss)"

text \<open>Decimal rendering of a non-negative integer, as a template literal does.\<close>

definition digitChar :: "nat \<Rightarrow> char" where
  "digitChar d = ''0123456789'' ! d"

fun showNat :: "nat \<Rightarrow> string" where
  "showNat n = (if n < 10 then [digitChar n] else showNat (n div 10) @ [digitChar (n mod 10)])"

declare showNat.simps [simp del]

section \<open>The POSIX variant of \<open>node:path\<close>\<close>

text \<open>
  The source imports \<open>node:path\<close>; the model fixes its POSIX variant, with separator
  \<open>/\<close>. \<open>normalizeString\<close> is the segment walk of Node's implementation: empty
  segments and \<open>.\<close> are dropped, \<open>..\<close> removes the last kept segment unless that is
  itself \<open>..\<close> or there is none, in which case it is kept when the path is relative.
\<close>

definition sep :: string where
  "sep = ''/''"

definition isAbsolute :: "string \<Rightarrow> bool" where
  "isAbsolute p = (p \<noteq> [] \<and> hd p = CHR ''/'')"

fun normalizeString :: "bool \<Rightarrow> string list \<Rightarrow> string list \<Rightarrow> string list" where
  "normalizeString allowAboveRoot res [] = res"
| "normalizeString allowAboveRoot res (s # ss) =
     (if s = [] \<or> s = ''.'' then normalizeString allowAboveRoot res ss
      else if s = ''..'' then
        (if res \<noteq> [] \<and> last res \<noteq> ''..''
           then normalizeString allowAboveRoot (butlast res) ss
         else if allowAboveRoot
           then normalizeString allowAboveRoot (res @ [''..'']) ss
         else normalizeString allowAboveRoot res ss)
      else normalizeString allowAboveRoot (res @ [s]) ss)"

definition normalize :: "string \<Rightarrow> string" where
  "normalize p =
     (if p = [] then ''.''
      else
        let isAbs = (hd p = CHR ''/'');
            trailingSeparator = (last p = CHR ''/'');
            r = joinWith ''/'' (normalizeString (\<not> isAbs) [] (splitOn CHR ''/'' p))
        in if r = [] then (if isAbs then ''/'' else if trailingSeparator then ''./'' else ''.'')
           else (if isAbs then ''/'' else []) @ r @ (if trailingSeparator then ''/'' else []))"

text \<open>\<open>path.join(a, b)\<close>: the non-empty arguments joined by \<open>/\<close>, then normalized.\<close>

definition join :: "string \<Rightarrow> string \<Rightarrow> string" where
  "join a b =
     (let parts = filter (\<lambda>s. s \<noteq> []) [a, b]
      in if parts = [] then ''.'' else normalize (joinWith ''/'' parts))"

section \<open>Exceptions and the file system\<close>

text \<open>
  A thrown JavaScript exception is a value: a function that can throw returns
  \<open>exn + 'a\<close>, with \<open>Inl\<close> the exception that leaves it. The file system is a record of
  what each \<open>node:fs\<close> call answers; the calls are independent of each other, since the
  files can change between two calls. \<open>existsSync\<close> never throws.
\<close>

datatype exn = Error string | TypeError string | SyntaxError string

record Stats =
  isFile :: bool
  isDirectory :: bool

record filesystem =
  existsSync :: "string \<Rightarrow> bool"
  realpathSync :: "string \<Rightarrow> exn + string"
  statSync :: "string \<Rightarrow> exn + Stats"
  readFileSync :: "string \<Rightarrow> exn + string"
  readdirSync :: "string \<Rightarrow> exn + string list"

datatype fs_call =
    ExistsSync string
  | RealpathSync string
  | StatSync string
  | ReadFileSync string

section \<open>security.ts\<close>

record Limits =
  maxQueryLength :: nat
  maxResults :: int
  maxContentLength :: nat

record Config =
  vaultPath :: string
  resolvedVaultPath :: string
  limits :: Limits

record ValidationResult =
  valid :: bool
  error :: "string option"
  resolvedPath :: "string option"

definition invalid :: "string \<Rightarrow> ValidationResult" where
  "invalid msg = \<lparr>valid = False, error = Some msg, resolvedPath = None\<rparr>"

definition hiddenPart :: "string \<Rightarrow> bool" where
  "hiddenPart part = (startsWith part ''.'' \<and> part \<noteq> ''.'')"

text \<open>
  \<open>validateNotePath\<close> returns the \<open>node:fs\<close> calls it made, in order, and its outcome:
  \<open>Inr\<close> the \<open>ValidationResult\<close> it returns, \<open>Inl\<close> an exception that leaves it. The
  \<open>try\<close> block of the source holds \<open>existsSync\<close> and \<open>realpathSync\<close>; \<open>statSync\<close>
  comes after it. Writing the security log (\<open>console.error\<close>) is not modelled.
\<close>

definition validateNotePath ::
  "filesystem \<Rightarrow> Config \<Rightarrow> string \<Rightarrow> fs_call list \<times> (exn + ValidationResult)" where
  "validateNotePath fs config relativePath =
     (if relativePath = [] then ([], Inr (invalid ''Path is required''))
      else
        let trimmed = trim relativePath in
        if length trimmed = 0 then ([], Inr (invalid ''Path cannot be empty''))
        else if isAbsolute trimmed then ([], Inr (invalid ''Absolute paths not allowed''))
        else
          let normalized = normalize trimmed in
          if startsWith normalized ''..'' \<or> includesStr normalized (''..'' @ sep)
            then ([], Inr (invalid ''Path traversal not allowed''))
          else if list_ex hiddenPart (splitOn CHR ''/'' normalized)
            then ([], Inr (invalid ''Hidden files/directories not accessible''))
          else if \<not> endsWith (toLowerCase normalized) ''.md''
            then ([], Inr (invalid ''Only .md files can be retrieved''))
          else
            let fullPath = join (resolvedVaultPath config) normalized in
            if \<not> existsSync fs fullPath
              then ([ExistsSync fullPath], Inr (invalid ''Note not found''))
            else
              (case realpathSync fs fullPath of
                 Inl e \<Rightarrow>
                   ([ExistsSync fullPath, RealpathSync fullPath],
                    Inr (invalid ''Cannot resolve path''))
               | Inr resolved \<Rightarrow>
                   if \<not> startsWith resolved (resolvedVaultPath config @ sep)
                     then ([ExistsSync fullPath, RealpathSync fullPath],
                           Inr (invalid ''Path resolves outside vault''))
                   else
                     (case statSync fs resolved of
                        Inl e \<Rightarrow>
                          ([ExistsSync fullPath, RealpathSync fullPath, StatSync resolved],
                           Inl e)
                      | Inr fileStats \<Rightarrow>
                          if \<not> isFile fileStats
                            then ([ExistsSync fullPath, RealpathSync fullPath,
                                   StatSync resolved],
                                  Inr (invalid ''Path is not a file''))
                          else ([ExistsSync fullPath, RealpathSync fullPath,
                                 StatSync resolved],
                                Inr \<lparr>valid = True, error = None,
                                     resolvedPath = Some resolved\<rparr>))))"

datatype jsnumber = Finite real | PosInfinity | NegInfinity | NaN

datatype jsvalue =
    JUndefined
  | JNull
  | JBool bool
  | JNumber jsnumber
  | JString string
  | JArray "jsvalue list"
  | JObject "(string \<times> jsvalue) list"

text \<open>
  A JavaScript number is a \<^typ>\<open>jsnumber\<close>: a finite value, read as a real number, one
  of the two infinities, or NaN. A value of unknown type is a \<^typ>\<open>jsvalue\<close>; an object
  is the list of its own properties in the order \<open>Object.entries\<close> gives them.
  \<open>isFiniteNumber x\<close> is \<open>typeof x === 'number' && isFinite(x)\<close>.
\<close>

fun isFiniteNumber :: "jsvalue \<Rightarrow> bool" where
  "isFiniteNumber (JNumber (Finite r)) = True"
| "isFiniteNumber v = False"

text \<open>The loop of \<open>validateEmbedding\<close>: the index of the first element that is not a
  finite number, counting from \<open>i\<close>.\<close>

fun firstInvalidIndex :: "nat \<Rightarrow> jsvalue list \<Rightarrow> nat option" where
  "firstInvalidIndex i [] = None"
| "firstInvalidIndex i (x # xs) =
     (if \<not> isFiniteNumber x then Some i else firstInvalidIndex (Suc i) xs)"

definition validateEmbedding :: "jsvalue \<Rightarrow> nat \<Rightarrow> ValidationResult" where
  "validateEmbedding embedding expectedDimensions =
     (case embedding of
        JArray xs \<Rightarrow>
          if length xs \<noteq> expectedDimensions
            then invalid (''Embedding must have '' @ showNat expectedDimensions
                          @ '' dimensions, got '' @ showNat (length xs))
          else (case firstInvalidIndex 0 xs of
                  Some i \<Rightarrow> invalid (''Invalid value at index '' @ showNat i)
                | None \<Rightarrow> \<lparr>valid = True, error = None, resolvedPath = None\<rparr>)
      | _ \<Rightarrow> invalid ''Embedding must be an array'')"

definition showInt :: "int \<Rightarrow> string" where
  "showInt i = (if i < 0 then ''-'' @ showNat (nat (- i)) else showNat (nat i))"

text \<open>
  \<open>validateLimit\<close>: the handlers pass the number that the argument schema produced, so
  the value is \<open>None\<close> for \<open>undefined\<close> or \<open>null\<close> and a finite number otherwise. Both
  failures are thrown.
\<close>

definition validateLimit :: "real option \<Rightarrow> int \<Rightarrow> int \<Rightarrow> string \<Rightarrow> exn + int" where
  "validateLimit val lo hi name =
     (case val of
        None \<Rightarrow> Inr lo
      | Some num \<Rightarrow>
          if of_int \<lfloor>num\<rfloor> \<noteq> num then Inl (Error (name @ '' must be an integer''))
          else if num < of_int lo \<or> num > of_int hi
            then Inl (Error (name @ '' must be between '' @ showInt lo @ '' and '' @ showInt hi))
          else Inr \<lfloor>num\<rfloor>)"

section \<open>data.ts: the index and titles\<close>

text \<open>
  The type parameter of an index entry is the type of the elements of its vector: the
  search engine reads them as numbers, the loader stores whatever array the fragment
  holds (the cast \<open>as number[]\<close> checks nothing). \<open>blocks\<close> is the raw value of the
  record's \<open>blocks\<close> property, \<open>JUndefined\<close> when there is none. The index is a
  JavaScript \<open>Map\<close>: a list of keys with their entries in insertion order, where
  \<open>set\<close> is \<open>AList.update\<close>, \<open>get\<close> is \<open>map_of\<close>.
\<close>

record 'v EmbeddingEntry =
  path :: string
  embedding :: "'v list"
  blocks :: jsvalue

type_synonym 'v Entries = "(string \<times> 'v EmbeddingEntry) list"

record ModelInfo =
  modelKey :: string
  dimensions :: nat
  adapter :: string

record SmartConnectionsData =
  entries :: "real Entries"
  modelInfo :: ModelInfo

text \<open>
  \<open>path.basename(p, suffix)\<close> of the POSIX variant: the last segment of \<open>p\<close>, its
  trailing slashes dropped, without the suffix when the segment ends with it and is
  longer. Node returns the empty string when \<open>p\<close> is the suffix, and keeps the trailing
  slashes when the segment is a proper end of the suffix.
\<close>

definition basename :: "string \<Rightarrow> string \<Rightarrow> string" where
  "basename p suf =
     (let body = rev (dropWhile (\<lambda>c. c = CHR ''/'') (rev p));
          seg = last (splitOn CHR ''/'' body)
      in if suf \<noteq> [] \<and> length suf \<le> length p then
           (if suf = p then []
            else if suffix suf seg \<and> length suf < length seg
              then take (length seg - length suf) seg
            else if suffix seg suf \<and> length seg < length suf
              then drop (length body - length seg) p
            else seg)
         else seg)"

definition extractTitle :: "string \<Rightarrow> string" where
  "extractTitle notePath =
     map (\<lambda>c. if c = CHR ''_'' then CHR '' '' else c) (basename notePath ''.md'')"

section \<open>search.ts\<close>

text \<open>
  The numbers of the search engine are real numbers: every operation is exact, where
  the source computes in IEEE 754 double precision. What is proved below about
  \<open>findSimilar\<close> is which entries it keeps and in which order.
\<close>

record SearchResult =
  path :: string
  title :: string
  score :: real

record SearchOptions =
  limit :: int
  threshold :: real
  excludePath :: "string option"

definition cosineSimilarity :: "real list \<Rightarrow> real list \<Rightarrow> exn + real" where
  "cosineSimilarity a b =
     (if length a \<noteq> length b
        then Inl (Error (''Vector dimension mismatch: '' @ showNat (length a)
                         @ '' vs '' @ showNat (length b)))
      else
        let (dot, normA, normB) =
              foldl (\<lambda>(dot, normA, normB) (x, y). (dot + x * y, normA + x * x, normB + y * y))
                (0, 0, 0) (zip a b);
            denominator = sqrt normA * sqrt normB
        in if denominator = 0 then Inr 0 else Inr (dot / denominator))"

text \<open>\<open>Math.round(score * 1000) / 1000\<close>; \<open>Math.round\<close> rounds a half up.\<close>

definition roundScore :: "real \<Rightarrow> real" where
  "roundScore s = of_int \<lfloor>s * 1000 + 1 / 2\<rfloor> / 1000"

text \<open>\<open>xs.slice(0, n)\<close> for an integer \<open>n\<close>: a negative \<open>n\<close> counts from the end.\<close>

definition slice0 :: "'a list \<Rightarrow> int \<Rightarrow> 'a list" where
  "slice0 xs n = (if n < 0 then take (nat (int (length xs) + n)) xs else take (nat n) xs)"

text \<open>An optional string is truthy when it is given and not empty.\<close>

definition truthyString :: "string option \<Rightarrow> bool" where
  "truthyString s = (s \<noteq> None \<and> s \<noteq> Some [])"

text \<open>The \<open>for\<close> loop of \<open>findSimilar\<close> over the index, \<open>results\<close> being what was pushed
  so far; the exception of \<open>cosineSimilarity\<close> ends it.\<close>

fun findLoop ::
  "real list \<Rightarrow> SearchOptions \<Rightarrow> real Entries \<Rightarrow> SearchResult list \<Rightarrow> exn + SearchResult list"
where
  "findLoop queryEmbedding options [] results = Inr results"
| "findLoop queryEmbedding options ((notePath, entry) # rest) results =
     (if truthyString (excludePath options) \<and> Some notePath = excludePath options
        then findLoop queryEmbedding options rest results
      else
        (case cosineSimilarity queryEmbedding (embedding entry) of
           Inl e \<Rightarrow> Inl e
         | Inr s \<Rightarrow>
             if s \<ge> threshold options
               then findLoop queryEmbedding options rest
                      (results @ [\<lparr>path = notePath, title = extractTitle notePath,
                                   score = roundScore s\<rparr>])
             else findLoop queryEmbedding options rest results))"

text \<open>\<open>Array.prototype.sort\<close> is stable; with the comparator \<open>b.score - a.score\<close> it
  is the stable sort by descending \<open>score\<close>.\<close>

definition sortByScore :: "SearchResult list \<Rightarrow> SearchResult list" where
  "sortByScore results = sort_key (\<lambda>r. - score r) results"

definition findSimilar ::
  "real list \<Rightarrow> real Entries \<Rightarrow> SearchOptions \<Rightarrow> exn + SearchResult list" where
  "findSimilar queryEmbedding ents options =
     (case findLoop queryEmbedding options ents [] of
        Inl e \<Rightarrow> Inl e
      | Inr results \<Rightarrow> Inr (slice0 (sortByScore results) (limit options)))"

definition findSimilarToNote ::
  "string \<Rightarrow> real Entries \<Rightarrow> int \<Rightarrow> real \<Rightarrow> exn + SearchResult list option" where
  "findSimilarToNote notePath ents lmt thr =
     (case map_of ents notePath of
        None \<Rightarrow> Inr None
      | Some entry \<Rightarrow>
          (case findSimilar (embedding entry) ents
                  \<lparr>limit = lmt, threshold = thr, excludePath = Some notePath\<rparr> of
             Inl e \<Rightarrow> Inl e
           | Inr results \<Rightarrow> Inr (Some results)))"

section \<open>tools.ts\<close>

text \<open>
  A \<open>ToolResult\<close> carries one text: the JSON rendering of a payload, or of
  \<open>{error: message}\<close> with \<open>isError\<close> set. The model keeps the payload and the message
  as they are before \<open>JSON.stringify\<close>. A handler returns \<open>Inr\<close> its \<open>ToolResult\<close>, or
  \<open>Inl\<close> the exception that leaves it. The argument schemas belong to the schema
  library: \<open>safeParse\<close> is a parameter of each handler, giving \<open>Inl\<close> the library's
  message or \<open>Inr\<close> the parsed arguments. Operational logging is not modelled.
\<close>

datatype Payload =
    SimilarPayload string "SearchResult list"
  | EmbeddingPayload "SearchResult list"
  | NotePayload string string string

datatype ToolResult = SuccessResult Payload | ErrorResult string

record ToolContext =
  config :: Config
  data :: SmartConnectionsData

definition handleSearchSimilar ::
  "(jsvalue \<Rightarrow> string + string \<times> real \<times> real) \<Rightarrow> jsvalue \<Rightarrow> ToolContext \<Rightarrow> exn + ToolResult"
where
  "handleSearchSimilar safeParse args ctx =
     (case safeParse args of
        Inl message \<Rightarrow> Inr (ErrorResult (''Invalid arguments: '' @ message))
      | Inr (notePath, limitArg, thresholdArg) \<Rightarrow>
          let normalizedPath = dropWhile (\<lambda>c. c = CHR ''/'') notePath in
          if map_of (entries (data ctx)) normalizedPath = None
            then Inr (ErrorResult (''Note not found in index: '' @ notePath))
          else
            (case validateLimit (Some limitArg) 1 (maxResults (limits (config ctx))) ''limit'' of
               Inl e \<Rightarrow> Inl e
             | Inr n \<Rightarrow>
                 (case findSimilarToNote normalizedPath (entries (data ctx)) n thresholdArg of
                    Inl e \<Rightarrow> Inl e
                  | Inr None \<Rightarrow> Inr (ErrorResult (''Note not found in index: '' @ notePath))
                  | Inr (Some results) \<Rightarrow>
                      Inr (SuccessResult (SimilarPayload notePath results)))))"

text \<open>After \<open>validateEmbedding\<close> every element of the query is finite; \<open>numberValue\<close>
  reads it.\<close>

fun numberValue :: "jsnumber \<Rightarrow> real" where
  "numberValue (Finite r) = r"
| "numberValue n = 0"

definition handleSearchByEmbedding ::
  "(jsvalue \<Rightarrow> string + jsnumber list \<times> real \<times> real) \<Rightarrow> jsvalue \<Rightarrow> ToolContext
     \<Rightarrow> exn + ToolResult"
where
  "handleSearchByEmbedding safeParse args ctx =
     (case safeParse args of
        Inl message \<Rightarrow> Inr (ErrorResult (''Invalid arguments: '' @ message))
      | Inr (queryNumbers, limitArg, thresholdArg) \<Rightarrow>
          let validation = validateEmbedding (JArray (map JNumber queryNumbers))
                             (dimensions (modelInfo (data ctx))) in
          if \<not> valid validation then Inr (ErrorResult (the (error validation)))
          else
            (case validateLimit (Some limitArg) 1 (maxResults (limits (config ctx))) ''limit'' of
               Inl e \<Rightarrow> Inl e
             | Inr n \<Rightarrow>
                 (case findSimilar (map numberValue queryNumbers) (entries (data ctx))
                         \<lparr>limit = n, threshold = thresholdArg, excludePath = None\<rparr> of
                    Inl e \<Rightarrow> Inl e
                  | Inr results \<Rightarrow> Inr (SuccessResult (EmbeddingPayload results)))))"



section \<open>data.ts: the loader\<close>

text \<open>
  \<open>getProp v key\<close> is \<open>v[key]\<close> for a value that is neither \<open>null\<close> nor \<open>undefined\<close>:
  an own property of an object, an element or the length of an array or a string. A
  member inherited from a prototype reads as \<open>JUndefined\<close>: the loader only tests such a
  value for truth or reads its \<open>vec\<close>, which no inherited member has.
\<close>

fun truthy :: "jsvalue \<Rightarrow> bool" where
  "truthy JUndefined = False"
| "truthy JNull = False"
| "truthy (JBool b) = b"
| "truthy (JNumber (Finite r)) = (r \<noteq> 0)"
| "truthy (JNumber NaN) = False"
| "truthy (JNumber n) = True"
| "truthy (JString s) = (s \<noteq> [])"
| "truthy (JArray xs) = True"
| "truthy (JObject kvs) = True"

definition indexOfKey :: "string \<Rightarrow> nat \<Rightarrow> nat option" where
  "indexOfKey key n = find (\<lambda>i. showNat i = key) [0..<n]"

fun getProp :: "jsvalue \<Rightarrow> string \<Rightarrow> jsvalue" where
  "getProp (JObject kvs) key = (case map_of kvs key of Some v \<Rightarrow> v | None \<Rightarrow> JUndefined)"
| "getProp (JArray xs) key =
     (case indexOfKey key (length xs) of
        Some i \<Rightarrow> xs ! i
      | None \<Rightarrow> if key = ''length'' then JNumber (Finite (real (length xs))) else JUndefined)"
| "getProp (JString s) key =
     (case indexOfKey key (length s) of
        Some i \<Rightarrow> JString [s ! i]
      | None \<Rightarrow> if key = ''length'' then JNumber (Finite (real (length s))) else JUndefined)"
| "getProp v key = JUndefined"

definition nullish :: "jsvalue \<Rightarrow> bool" where
  "nullish v = (v = JNull \<or> v = JUndefined)"

fun objectEntries :: "jsvalue \<Rightarrow> exn + (string \<times> jsvalue) list" where
  "objectEntries (JObject kvs) = Inr kvs"
| "objectEntries (JArray xs) = Inr (zip (map showNat [0..<length xs]) xs)"
| "objectEntries (JString s) = Inr (zip (map showNat [0..<length s]) (map (\<lambda>c. JString [c]) s))"
| "objectEntries JNull = Inl (TypeError ''Cannot convert undefined or null to object'')"
| "objectEntries JUndefined = Inl (TypeError ''Cannot convert undefined or null to object'')"
| "objectEntries v = Inr []"

text \<open>
  The part of the loop body of \<open>parseAjsonFile\<close> that finds the vector of a record:
  \<open>data.embeddings\<close> throws on \<open>null\<close>; the record is skipped (\<open>None\<close>) unless
  \<open>embeddings[modelKey]?.vec\<close> is an array.
\<close>

definition recordVector :: "string \<Rightarrow> jsvalue \<Rightarrow> exn + jsvalue list option" where
  "recordVector activeKey val =
     (if nullish val then Inl (TypeError ''Cannot read properties of null'')
      else
        let embeddings = getProp val ''embeddings'' in
        if \<not> truthy embeddings then Inr None
        else
          let modelData = getProp embeddings activeKey;
              vec = (if nullish modelData then JUndefined else getProp modelData ''vec'')
          in (case vec of JArray xs \<Rightarrow> Inr (Some xs) | _ \<Rightarrow> Inr None))"

definition sourcesPrefix :: string where
  "sourcesPrefix = ''smart_sources:''"

fun parseLoop ::
  "string \<Rightarrow> (string \<times> jsvalue) list \<Rightarrow> jsvalue Entries \<Rightarrow> exn + jsvalue Entries" where
  "parseLoop activeKey [] ents = Inr ents"
| "parseLoop activeKey ((fullKey, val) # rest) ents =
     (if \<not> startsWith fullKey sourcesPrefix then parseLoop activeKey rest ents
      else
        let notePath = drop (length sourcesPrefix) fullKey in
        if includesStr notePath ''#'' then parseLoop activeKey rest ents
        else
          (case recordVector activeKey val of
             Inl e \<Rightarrow> Inl e
           | Inr None \<Rightarrow> parseLoop activeKey rest ents
           | Inr (Some vec) \<Rightarrow>
               parseLoop activeKey rest
                 (AList.update notePath
                    \<lparr>EmbeddingEntry.path = notePath, embedding = vec,
                     blocks = getProp val ''blocks''\<rparr> ents)))"

text \<open>\<open>JSON.parse\<close> is a parameter: \<open>Inl\<close> the \<open>SyntaxError\<close> it throws, \<open>Inr\<close> the value
  it returns.\<close>

definition parseAjsonFile ::
  "(string \<Rightarrow> exn + jsvalue) \<Rightarrow> filesystem \<Rightarrow> string \<Rightarrow> string \<Rightarrow> exn + jsvalue Entries" where
  "parseAjsonFile JSON_parse fs filePath activeKey =
     (case readFileSync fs filePath of
        Inl e \<Rightarrow> Inl e
      | Inr raw \<Rightarrow>
          let content = trim raw in
          if content = [] then Inr []
          else
            let jsonContent = (if endsWith content '','' then take (length content - 1) content
                               else content);
                wrappedContent = ''{'' @ jsonContent @ ''}''
            in (case JSON_parse wrappedContent of
                  Inl e \<Rightarrow> Inr []
                | Inr parsed \<Rightarrow>
                    (case objectEntries parsed of
                       Inl e \<Rightarrow> Inl e
                     | Inr kvs \<Rightarrow> parseLoop activeKey kvs [])))"

text \<open>The \<open>for\<close> loop of \<open>loadEmbeddings\<close> over the fragment files: its \<open>try\<close> block
  holds the whole body, so a fragment that throws leaves the index as it was.\<close>

fun loadLoop ::
  "(string \<Rightarrow> exn + jsvalue) \<Rightarrow> filesystem \<Rightarrow> string \<Rightarrow> string \<Rightarrow> string list
     \<Rightarrow> jsvalue Entries \<Rightarrow> jsvalue Entries" where
  "loadLoop JSON_parse fs multiPath activeKey [] ents = ents"
| "loadLoop JSON_parse fs multiPath activeKey (file # files) ents =
     (case parseAjsonFile JSON_parse fs (join multiPath file) activeKey of
        Inl e \<Rightarrow> loadLoop JSON_parse fs multiPath activeKey files ents
      | Inr fileEntries \<Rightarrow>
          loadLoop JSON_parse fs multiPath activeKey files
            (fold (\<lambda>(key, entry) m. AList.update key entry m) fileEntries ents))"

definition loadEmbeddings ::
  "(string \<Rightarrow> exn + jsvalue) \<Rightarrow> filesystem \<Rightarrow> string \<Rightarrow> string \<Rightarrow> exn + jsvalue Entries" where
  "loadEmbeddings JSON_parse fs smartEnvPath activeKey =
     (let multiPath = join smartEnvPath ''multi'' in
      if \<not> existsSync fs multiPath then Inr []
      else
        (case readdirSync fs multiPath of
           Inl e \<Rightarrow> Inl e
         | Inr names \<Rightarrow>
             Inr (loadLoop JSON_parse fs multiPath activeKey
                    (filter (\<lambda>f. endsWith f ''.ajson'') names) [])))"

section \<open>Notions of the specification\<close>

text \<open>
  The candidate absolute path of step 6 of the path guard, and the conjunction of its
  lexical steps 1 to 5 (non-empty, relative, no traversal left after normalization, no
  hidden segment, the \<open>.md\<close> extension).
\<close>

definition candidatePath :: "Config \<Rightarrow> string \<Rightarrow> string" where
  "candidatePath cfg relativePath =
     join (resolvedVaultPath cfg) (normalize (trim relativePath))"

definition passesLexicalChecks :: "string \<Rightarrow> bool" where
  "passesLexicalChecks relativePath =
     (let trimmed = trim relativePath; normalized = normalize trimmed
      in relativePath \<noteq> [] \<and> trimmed \<noteq> [] \<and> \<not> isAbsolute trimmed
         \<and> \<not> (startsWith normalized ''..'' \<or> includesStr normalized (''..'' @ sep))
         \<and> \<not> list_ex hiddenPart (splitOn CHR ''/'' normalized)
         \<and> endsWith (toLowerCase normalized) ''.md'')"

text \<open>
  The repair of a fragment in the specification's words: strip a single trailing comma
  if present, and wrap the content in braces.
\<close>

definition spec_repair :: "string \<Rightarrow> string" where
  "spec_repair content =
     ''{'' @ (if content \<noteq> [] \<and> last content = CHR '','' then butlast content else content)
       @ ''}''"

text \<open>
  A well-formed record of the fragment format: its key is \<open>smart_sources:\<close> followed by
  a document identifier without \<open>#\<close>, and its value is an object that carries
  \<open>embeddings.<modelKey>.vec\<close>, an array. \<open>spec_document\<close> is the index entry such a
  record stands for.
\<close>

fun spec_vector :: "string \<Rightarrow> jsvalue \<Rightarrow> jsvalue list option" where
  "spec_vector activeKey (JObject props) =
     (case map_of props ''embeddings'' of
        Some (JObject models) \<Rightarrow>
          (case map_of models activeKey of
             Some (JObject modelData) \<Rightarrow>
               (case map_of modelData ''vec'' of Some (JArray xs) \<Rightarrow> Some xs | _ \<Rightarrow> None)
           | _ \<Rightarrow> None)
      | _ \<Rightarrow> None)"
| "spec_vector activeKey v = None"

definition spec_document ::
  "string \<Rightarrow> string \<times> jsvalue \<Rightarrow> (string \<times> jsvalue EmbeddingEntry) option" where
  "spec_document activeKey kv =
     (let documentId = drop (length sourcesPrefix) (fst kv) in
      if startsWith (fst kv) sourcesPrefix \<and> CHR ''#'' \<notin> set documentId
        then (case spec_vector activeKey (snd kv) of
                Some xs \<Rightarrow>
                  Some (documentId,
                        \<lparr>EmbeddingEntry.path = documentId, embedding = xs,
                         blocks = getProp (snd kv) ''blocks''\<rparr>)
              | None \<Rightarrow> None)
      else None)"

text \<open>
  A well-formed record value of the fragment format is an object whose \<open>embeddings\<close>,
  when present, is an object that maps model keys to objects (each holding its \<open>vec\<close>).
  Block records and document records alike have such values.
\<close>

fun wellFormedValue :: "jsvalue \<Rightarrow> bool" where
  "wellFormedValue (JObject props) =
     (case map_of props ''embeddings'' of
        None \<Rightarrow> True
      | Some (JObject models) \<Rightarrow>
          list_all (\<lambda>md. case snd md of JObject modelData \<Rightarrow> True | _ \<Rightarrow> False) models
      | Some _ \<Rightarrow> False)"
| "wellFormedValue v = False"


section \<open>Example inputs\<close>

text \<open>The limits are the ones \<open>validateConfig\<close> sets; the vault is \<open>/vault\<close>.\<close>

definition defaultLimits :: Limits where
  "defaultLimits = \<lparr>maxQueryLength = 1000, maxResults = 50, maxContentLength = 10240\<rparr>"

definition vaultConfig :: Config where
  "vaultConfig =
     \<lparr>vaultPath = ''/vault'', resolvedVaultPath = ''/vault'', limits = defaultLimits\<rparr>"

definition regularFile :: Stats where
  "regularFile = \<lparr>isFile = True, isDirectory = False\<rparr>"

text \<open>A vault without symbolic links where every path is a readable regular file.\<close>

definition plainFs :: filesystem where
  "plainFs =
     \<lparr>existsSync = (\<lambda>p. True), realpathSync = (\<lambda>p. Inr p),
      statSync = (\<lambda>p. Inr regularFile), readFileSync = (\<lambda>p. Inr ''text''),
      readdirSync = (\<lambda>p. Inr [])\<rparr>"

text \<open>A vault with two symbolic links: \<open>in.md\<close> to a note inside the vault,
  \<open>out.md\<close> to a file outside.\<close>

definition linkFs :: filesystem where
  "linkFs =
     \<lparr>existsSync = (\<lambda>p. True),
      realpathSync = (\<lambda>p. if p = ''/vault/out.md'' then Inr ''/etc/secret.md''
                          else if p = ''/vault/in.md'' then Inr ''/vault/notes/real.md''
                          else Inr p),
      statSync = (\<lambda>p. Inr regularFile), readFileSync = (\<lambda>p. Inr ''text''),
      readdirSync = (\<lambda>p. Inr [])\<rparr>"

text \<open>A note that is removed after \<open>realpathSync\<close> resolved it: \<open>statSync\<close> throws.\<close>

definition racedFs :: filesystem where
  "racedFs =
     \<lparr>existsSync = (\<lambda>p. True), realpathSync = (\<lambda>p. Inr p),
      statSync = (\<lambda>p. Inl (Error ''ENOENT: no such file or directory, stat'')),
      readFileSync = (\<lambda>p. Inr ''text''), readdirSync = (\<lambda>p. Inr [])\<rparr>"





definition entryOf :: "string \<Rightarrow> real list \<Rightarrow> string \<times> real EmbeddingEntry" where
  "entryOf notePath vec =
     (notePath, \<lparr>EmbeddingEntry.path = notePath, embedding = vec, blocks = JUndefined\<rparr>)"

definition bgeMicro :: ModelInfo where
  "bgeMicro =
     \<lparr>modelKey = ''TaylorAI/bge-micro-v2'', dimensions = 384, adapter = ''transformers''\<rparr>"


text \<open>An index whose two vectors differ in length, and a request for the notes similar
  to the first.\<close>

definition mixedIndex :: "real Entries" where
  "mixedIndex = [entryOf ''A.md'' [1, 2], entryOf ''B.md'' [1]]"

definition mixedContext :: ToolContext where
  "mixedContext =
     \<lparr>config = vaultConfig, data = \<lparr>entries = mixedIndex, modelInfo = bgeMicro\<rparr>\<rparr>"

definition similarToA :: "jsvalue \<Rightarrow> string + string \<times> real \<times> real" where
  "similarToA args = Inr (''A.md'', 10, 3 / 10)"

text \<open>Against the query \<open>[1, 0]\<close> the cosines are \<open>9999/10001\<close> and \<open>1\<close> in
  \<open>nearIndex\<close>, and \<open>1\<close> and \<open>21/29\<close> in \<open>pairIndex\<close>.\<close>

definition nearIndex :: "real Entries" where
  "nearIndex = [entryOf ''A.md'' [9999, 200], entryOf ''B.md'' [1, 0]]"

definition pairIndex :: "real Entries" where
  "pairIndex = [entryOf ''A.md'' [1, 0], entryOf ''B.md'' [21, 20]]"

definition roundedDownIndex :: "real Entries" where
  "roundedDownIndex = [entryOf ''B.md'' [21, 20]]"

text \<open>A two-dimensional model and a query whose second element is NaN.\<close>

definition tinyContext :: ToolContext where
  "tinyContext =
     \<lparr>config = vaultConfig,
      data = \<lparr>entries = [],
              modelInfo = \<lparr>modelKey = ''m'', dimensions = 2, adapter = ''transformers''\<rparr>\<rparr>\<rparr>"

definition nanQuery :: "jsvalue \<Rightarrow> string + jsnumber list \<times> real \<times> real" where
  "nanQuery args = Inr ([Finite 1, NaN], 10, 3 / 10)"

text \<open>
  The directory \<open>/env/multi\<close> lists \<open>bad.ajson\<close>, which is no JSON, \<open>good.ajson\<close> and
  a file that is no fragment. \<open>good.ajson\<close> holds five records, one on each line, and
  ends with a comma and a line feed: a block record, the document \<open>A.md\<close>, a record
  whose key has a \<open>#\<close>, the document \<open>B.md\<close> embedded under another model, and the
  document \<open>C.md\<close> with its blocks. \<open>fragmentParse\<close> answers as \<open>JSON.parse\<close> does on the
  two repaired texts, with the active model key \<open>m\<close>.
\<close>

definition goodBody :: string where
  \<open>goodBody =
     ''"smart_blocks:A.md#h1": {"embeddings": {"m": {"vec": [5]}}},'' @ [CHR 0x0A] @
     ''"smart_sources:A.md": {"embeddings": {"m": {"vec": [1, 2]}}},'' @ [CHR 0x0A] @
     ''"smart_sources:A.md#h1": {"embeddings": {"m": {"vec": [3]}}},'' @ [CHR 0x0A] @
     ''"smart_sources:B.md": {"embeddings": {"other": {"vec": [4]}}},'' @ [CHR 0x0A] @
     ''"smart_sources:C.md": {"embeddings": {"m": {"vec": [0, 1]}}, "blocks": {"#h": [1, 2]}}''\<close>

definition goodFragment :: string where
  "goodFragment = goodBody @ '','' @ [CHR 0x0A]"

definition vecOf :: "string \<Rightarrow> real list \<Rightarrow> string \<times> jsvalue" where
  "vecOf model xs =
     (''embeddings'',
      JObject [(model, JObject [(''vec'', JArray (map (\<lambda>x. JNumber (Finite x)) xs))])])"

definition goodRecords :: "(string \<times> jsvalue) list" where
  "goodRecords =
     [(''smart_blocks:A.md#h1'', JObject [vecOf ''m'' [5]]),
      (''smart_sources:A.md'', JObject [vecOf ''m'' [1, 2]]),
      (''smart_sources:A.md#h1'', JObject [vecOf ''m'' [3]]),
      (''smart_sources:B.md'', JObject [vecOf ''other'' [4]]),
      (''smart_sources:C.md'',
       JObject [vecOf ''m'' [0, 1],
                (''blocks'',
                 JObject [(''#h'', JArray [JNumber (Finite 1), JNumber (Finite 2)])])])]"

definition goodObject :: jsvalue where
  "goodObject = JObject goodRecords"

definition goodEntries :: "jsvalue Entries" where
  "goodEntries =
     [(''A.md'', \<lparr>EmbeddingEntry.path = ''A.md'',
                  embedding = [JNumber (Finite 1), JNumber (Finite 2)],
                  blocks = JUndefined\<rparr>),
      (''C.md'', \<lparr>EmbeddingEntry.path = ''C.md'',
                  embedding = [JNumber (Finite 0), JNumber (Finite 1)],
                  blocks = JObject [(''#h'', JArray [JNumber (Finite 1),
                                                     JNumber (Finite 2)])]\<rparr>)]"

definition fragmentParse :: "string \<Rightarrow> exn + jsvalue" where
  "fragmentParse text =
     (if text = ''{'' @ goodBody @ ''}'' then Inr goodObject
      else Inl (SyntaxError ''Unexpected token''))"

definition fragmentFs :: filesystem where
  "fragmentFs =
     \<lparr>existsSync = (\<lambda>p. True), realpathSync = (\<lambda>p. Inr p),
      statSync = (\<lambda>p. Inr regularFile),
      readFileSync = (\<lambda>p. if p = ''/env/multi/good.ajson'' then Inr goodFragment
                          else Inr ''not json''),
      readdirSync = (\<lambda>p. Inr [''bad.ajson'', ''good.ajson'', ''notes.txt''])\<rparr>"

section \<open>Evaluation rules\<close>

lemmas string_eval = startsWith_def endsWith_def includesStr_def trim_def isWhiteSpace_def
  toLowerCase_def lowerChar_def sublist_Cons_right suffix_to_prefix

lemmas path_eval = sep_def isAbsolute_def normalize_def join_def hiddenPart_def Let_def

lemmas example_eval = vaultConfig_def defaultLimits_def regularFile_def

lemma showNat_1: "showNat (Suc 0) = ''1''"
  by (simp add: showNat.simps digitChar_def)

lemma showNat_2: "showNat (Suc (Suc 0)) = ''2''"
  by (simp add: showNat.simps digitChar_def)

section \<open>The path guard\<close>

subsection \<open>Normalization keeps a leading \<open>..\<close>\<close>

lemma normalizeString_keeps_dotdot:
  "res \<noteq> [] \<Longrightarrow> hd res = ''..'' \<Longrightarrow>
   normalizeString True res ss \<noteq> [] \<and> hd (normalizeString True res ss) = ''..''"
proof (induction ss arbitrary: res)
  case Nil
  then show ?case by simp
next
  case (Cons s ss)
  show ?case
  proof (cases "s = ''..'' \<and> last res \<noteq> ''..''")
    case True
    with Cons.prems have "butlast res \<noteq> [] \<and> hd (butlast res) = ''..''"
      by (cases res rule: rev_cases) (auto simp: hd_append split: if_splits)
    with Cons.IH [of "butlast res"] True Cons.prems show ?thesis by simp
  next
    case False
    have "\<And>x. (res @ [x]) \<noteq> [] \<and> hd (res @ [x]) = ''..''"
      using Cons.prems by (simp add: hd_append)
    with Cons.IH Cons.prems False show ?thesis by auto
  qed
qed

lemma joinWith_Cons_prefix: "prefix s (joinWith d (s # ss))"
  by (cases ss) simp_all

lemma joinWith_eq_Nil: "joinWith d (s # ss) = [] \<Longrightarrow> s = []"
  by (cases ss) simp_all

lemma normalize_leading_dotdot:
  assumes "startsWith t ''../''"
  shows "startsWith (normalize t) ''..''"
proof -
  from assms obtain rest where t: "t = ''../'' @ rest"
    by (auto simp: startsWith_def prefix_def)
  define r where "r = normalizeString True [''..''] (splitOn CHR ''/'' rest)"
  have r: "r \<noteq> [] \<and> hd r = ''..''"
    unfolding r_def by (rule normalizeString_keeps_dotdot) simp_all
  then obtain ss where rs: "r = ''..'' # ss" by (cases r) auto
  have split: "splitOn CHR ''/'' t = ''..'' # splitOn CHR ''/'' rest"
    by (simp add: t)
  have "prefix ''..'' (joinWith ''/'' r)"
    unfolding rs by (rule joinWith_Cons_prefix)
  moreover have "joinWith ''/'' r \<noteq> []"
    using joinWith_eq_Nil [of "''/''" "''..''" ss] rs by auto
  moreover have "normalizeString True [] (splitOn CHR ''/'' t) = r"
    by (simp add: split r_def)
  ultimately show ?thesis
    by (auto simp: normalize_def t Let_def startsWith_def prefix_def)
qed

subsection \<open>The examples\<close>

lemma candidate_in: "candidatePath vaultConfig ''in.md'' = ''/vault/in.md''"
  by (simp add: candidatePath_def example_eval string_eval path_eval)

lemma candidate_out: "candidatePath vaultConfig ''out.md'' = ''/vault/out.md''"
  by (simp add: candidatePath_def example_eval string_eval path_eval)

lemma lexical_in: "passesLexicalChecks ''in.md''"
  by (simp add: passesLexicalChecks_def string_eval path_eval)


subsection \<open>Confinement\<close>

text \<open>
  Claim C1. Whenever \<open>validateNotePath\<close> returns a valid outcome, its \<open>resolvedPath\<close> is
  what \<open>realpathSync\<close> answered for the candidate path (the canonical root joined with
  the normalized input), and it starts with the canonical root followed by the
  separator. A candidate whose real path does not start so, as a symbolic link inside
  the root with a target outside, is rejected. A candidate that passes the lexical
  checks, exists, resolves to a path under the canonical root and is a regular file, as
  a symbolic link \<open>x.md\<close> to a note inside the root, is accepted with that real path.
\<close>

theorem validateNotePath_confined:
  "(snd (validateNotePath fs cfg p) = Inr r \<and> valid r \<longrightarrow>
      (\<exists>rp. resolvedPath r = Some rp
            \<and> realpathSync fs (candidatePath cfg p) = Inr rp
            \<and> startsWith rp (resolvedVaultPath cfg @ sep)))
   \<and> (realpathSync fs (candidatePath cfg p) = Inr outside
        \<and> \<not> startsWith outside (resolvedVaultPath cfg @ sep) \<longrightarrow>
      (\<exists>reason. snd (validateNotePath fs cfg p) = Inr (invalid reason)))
   \<and> (passesLexicalChecks p \<and> existsSync fs (candidatePath cfg p)
        \<and> realpathSync fs (candidatePath cfg p) = Inr inside
        \<and> startsWith inside (resolvedVaultPath cfg @ sep)
        \<and> statSync fs inside = Inr st \<and> isFile st \<longrightarrow>
      snd (validateNotePath fs cfg p)
        = Inr \<lparr>valid = True, error = None, resolvedPath = Some inside\<rparr>)"
proof (intro conjI impI)
  assume "snd (validateNotePath fs cfg p) = Inr r \<and> valid r"
  then show "\<exists>rp. resolvedPath r = Some rp
            \<and> realpathSync fs (candidatePath cfg p) = Inr rp
            \<and> startsWith rp (resolvedVaultPath cfg @ sep)"
    by (auto simp: validateNotePath_def candidatePath_def invalid_def Let_def
             split: if_splits sum.splits)
next
  assume "realpathSync fs (candidatePath cfg p) = Inr outside
        \<and> \<not> startsWith outside (resolvedVaultPath cfg @ sep)"
  then show "\<exists>reason. snd (validateNotePath fs cfg p) = Inr (invalid reason)"
    by (auto simp: validateNotePath_def candidatePath_def Let_def)
next
  assume "passesLexicalChecks p \<and> existsSync fs (candidatePath cfg p)
        \<and> realpathSync fs (candidatePath cfg p) = Inr inside
        \<and> startsWith inside (resolvedVaultPath cfg @ sep)
        \<and> statSync fs inside = Inr st \<and> isFile st"
  then show "snd (validateNotePath fs cfg p)
        = Inr \<lparr>valid = True, error = None, resolvedPath = Some inside\<rparr>"
    by (auto simp: validateNotePath_def candidatePath_def passesLexicalChecks_def Let_def)
qed

theorem validateNotePath_confined_witness:
  "snd (validateNotePath linkFs vaultConfig ''in.md'')
     = Inr \<lparr>valid = True, error = None, resolvedPath = Some ''/vault/notes/real.md''\<rparr>
   \<and> realpathSync linkFs (candidatePath vaultConfig ''in.md'') = Inr ''/vault/notes/real.md''
   \<and> startsWith ''/vault/notes/real.md'' (resolvedVaultPath vaultConfig @ sep)
   \<and> realpathSync linkFs (candidatePath vaultConfig ''out.md'') = Inr ''/etc/secret.md''
   \<and> \<not> startsWith ''/etc/secret.md'' (resolvedVaultPath vaultConfig @ sep)
   \<and> (\<exists>reason. snd (validateNotePath linkFs vaultConfig ''out.md'') = Inr (invalid reason))"
proof -
  have a: "realpathSync linkFs (candidatePath vaultConfig ''in.md'')
             = Inr ''/vault/notes/real.md''"
    by (simp add: candidate_in linkFs_def)
  have b: "startsWith ''/vault/notes/real.md'' (resolvedVaultPath vaultConfig @ sep)"
    by (simp add: vaultConfig_def sep_def startsWith_def)
  have c: "statSync linkFs ''/vault/notes/real.md'' = Inr regularFile \<and> isFile regularFile"
    by (simp add: linkFs_def regularFile_def)
  have d: "existsSync linkFs (candidatePath vaultConfig ''in.md'')"
    by (simp add: linkFs_def)
  have e: "realpathSync linkFs (candidatePath vaultConfig ''out.md'') = Inr ''/etc/secret.md''"
    by (simp add: candidate_out linkFs_def)
  have f: "\<not> startsWith ''/etc/secret.md'' (resolvedVaultPath vaultConfig @ sep)"
    by (simp add: vaultConfig_def sep_def startsWith_def)
  from validateNotePath_confined
         [of linkFs vaultConfig "''in.md''" _ _ "''/vault/notes/real.md''" regularFile]
    lexical_in a b c d
  have g: "snd (validateNotePath linkFs vaultConfig ''in.md'')
     = Inr \<lparr>valid = True, error = None, resolvedPath = Some ''/vault/notes/real.md''\<rparr>"
    by blast
  from validateNotePath_confined [of linkFs vaultConfig "''out.md''" _ "''/etc/secret.md''"] e f
  have h: "\<exists>reason. snd (validateNotePath linkFs vaultConfig ''out.md'') = Inr (invalid reason)"
    by blast
  from a b e f g h show ?thesis by blast
qed

subsection \<open>Traversal\<close>

text \<open>
  Claim C2 as stated fails: the input \<open>a/../b.md\<close> contains \<open>../\<close>, is normalized to
  \<open>b.md\<close>, and is validated through three file system calls and accepted.
\<close>

theorem validateNotePath_traversal_counterexample:
  "includesStr ''a/../b.md'' ''../''
   \<and> validateNotePath plainFs vaultConfig ''a/../b.md''
       = ([ExistsSync ''/vault/b.md'', RealpathSync ''/vault/b.md'', StatSync ''/vault/b.md''],
          Inr \<lparr>valid = True, error = None, resolvedPath = Some ''/vault/b.md''\<rparr>)"
  by (simp add: validateNotePath_def plainFs_def example_eval string_eval path_eval)

text \<open>
  Claim C2, amended. Every input that is absolute after trimming, or begins with \<open>../\<close>
  after trimming, or whose normalized form begins with \<open>..\<close> or contains \<open>../\<close>, is
  rejected, and \<open>validateNotePath\<close> makes no file system call before it returns.
\<close>

theorem validateNotePath_traversal_rejected:
  "isAbsolute (trim p) \<or> startsWith (trim p) ''../''
     \<or> startsWith (normalize (trim p)) ''..'' \<or> includesStr (normalize (trim p)) ''../''
   \<Longrightarrow> fst (validateNotePath fs cfg p) = []
       \<and> (\<exists>reason. snd (validateNotePath fs cfg p) = Inr (invalid reason))"
  using normalize_leading_dotdot [of "trim p"]
  by (auto simp: validateNotePath_def Let_def sep_def)

theorem validateNotePath_traversal_rejected_witness:
  "startsWith (trim ''../../etc/passwd'') ''../''
   \<and> fst (validateNotePath plainFs vaultConfig ''../../etc/passwd'') = []
   \<and> (\<exists>reason. snd (validateNotePath plainFs vaultConfig ''../../etc/passwd'')
                  = Inr (invalid reason))"
proof -
  have h: "startsWith (trim ''../../etc/passwd'') ''../''"
    by (simp add: string_eval)
  with validateNotePath_traversal_rejected [of "''../../etc/passwd''" plainFs vaultConfig]
  show ?thesis by blast
qed

subsection \<open>Errors of the file system\<close>

text \<open>
  Claim C3 fails on the code: \<open>statSync\<close> is called after the \<open>try\<close> block, so an error
  it raises leaves \<open>validateNotePath\<close> as an exception. Here the note exists and
  resolves inside the vault, and \<open>statSync\<close> then fails.
\<close>

theorem validateNotePath_statSync_throws:
  "validateNotePath racedFs vaultConfig ''note.md''
     = ([ExistsSync ''/vault/note.md'', RealpathSync ''/vault/note.md'',
         StatSync ''/vault/note.md''],
        Inl (Error ''ENOENT: no such file or directory, stat''))"
  by (simp add: validateNotePath_def racedFs_def example_eval string_eval path_eval)

section \<open>The similarity engine\<close>

lemma sqrt_841: "sqrt 841 = 29"
  by (rule real_sqrt_unique) simp_all

lemma sqrt_100020001: "sqrt 100020001 = 10001"
  by (rule real_sqrt_unique) simp_all

lemmas search_eval = findSimilar_def entryOf_def truthyString_def sortByScore_def slice0_def
  roundScore_def extractTitle_def basename_def Let_def suffix_to_prefix

subsection \<open>The cosine in exact arithmetic\<close>

text \<open>
  Claim C7 states exact equalities between results of double precision arithmetic
  (\<open>cosineSimilarity(a, a)\<close> is \<open>1\<close>, the similarity with a zero vector is \<open>0\<close>).
  They depend on the rounding, underflow and overflow of the products, of \<open>Math.sqrt\<close>
  and of the division, which exact real arithmetic does not have: the square of
  \<open>2 ** -600\<close> is \<open>0\<close> in double precision, so that a non-zero vector can have the
  similarity \<open>0\<close> with itself. The claim is not stated in this theory. The lemmas
  of this subsection are about the formula in exact arithmetic only, where it is
  symmetric, \<open>1\<close> for a non-zero vector and itself, and \<open>0\<close> when a norm is \<open>0\<close>.
\<close>

lemma cosine_sums:
  "foldl (\<lambda>(dot, normA, normB) (x, y). (dot + x * y, normA + x * x, normB + y * y))
     (d, na, nb) zs
   = (d + (\<Sum>(x, y) \<leftarrow> zs. x * y), na + (\<Sum>(x, y) \<leftarrow> zs. x * x),
      nb + (\<Sum>(x, y) \<leftarrow> zs. y * y :: real))"
  by (induction zs arbitrary: d na nb) (auto simp: algebra_simps)

lemma cosineSimilarity_exact:
  "length a = length b \<Longrightarrow>
   cosineSimilarity a b =
     (let dot = (\<Sum>(x, y) \<leftarrow> zip a b. x * y);
          denominator = sqrt (\<Sum>x \<leftarrow> a. x * x) * sqrt (\<Sum>y \<leftarrow> b. y * y)
      in if denominator = 0 then Inr 0 else Inr (dot / denominator))"
proof -
  assume l: "length a = length b"
  have 1: "(\<Sum>(x, y) \<leftarrow> zip a b. x * x) = (\<Sum>x \<leftarrow> a. x * x)"
    using l by (induction a b rule: list_induct2) auto
  have 2: "(\<Sum>(x, y) \<leftarrow> zip a b. y * y) = (\<Sum>y \<leftarrow> b. y * y)"
    using l by (induction a b rule: list_induct2) auto
  show ?thesis
    using l by (simp add: cosineSimilarity_def cosine_sums 1 2 Let_def)
qed

lemma dot_commute:
  "length a = length b \<Longrightarrow>
   (\<Sum>(x, y) \<leftarrow> zip a b. x * y) = (\<Sum>(x, y) \<leftarrow> zip b a. x * (y :: real))"
  by (induction a b rule: list_induct2) (auto simp: mult.commute)

lemma cosineSimilarity_commute:
  "length a = length b \<Longrightarrow> cosineSimilarity a b = cosineSimilarity b a"
  by (simp add: cosineSimilarity_exact dot_commute [of a b] mult.commute Let_def)

lemma sum_squares_zero: "(\<Sum>x \<leftarrow> a. x * x) = 0 \<longleftrightarrow> (\<forall>x \<in> set a. x = (0 :: real))"
proof (induction a)
  case Nil
  then show ?case by simp
next
  case (Cons x a)
  have "0 \<le> (\<Sum>x \<leftarrow> a. x * x)" by (rule sum_list_nonneg) auto
  moreover have "0 \<le> x * x" by simp
  ultimately have "x * x + (\<Sum>x \<leftarrow> a. x * x) = 0 \<longleftrightarrow> x * x = 0 \<and> (\<Sum>x \<leftarrow> a. x * x) = 0"
    by (simp add: add_nonneg_eq_0_iff)
  with Cons.IH show ?case by simp
qed

lemma dot_self: "(\<Sum>(x, y) \<leftarrow> zip a a. x * y) = (\<Sum>x \<leftarrow> a. x * (x :: real))"
  by (induction a) auto

lemma cosineSimilarity_self:
  assumes "\<exists>x \<in> set a. x \<noteq> 0"
  shows "cosineSimilarity a a = Inr 1"
proof -
  let ?s = "\<Sum>x \<leftarrow> a. x * x"
  have nz: "?s \<noteq> 0" using assms by (simp add: sum_squares_zero)
  have "0 \<le> ?s" by (rule sum_list_nonneg) auto
  then have "sqrt ?s * sqrt ?s = ?s" by simp
  with nz show ?thesis
    by (simp add: cosineSimilarity_exact dot_self Let_def)
qed

lemma cosineSimilarity_zero_norm:
  assumes "length a = length b"
    and "(\<forall>x \<in> set a. x = 0) \<or> (\<forall>y \<in> set b. y = 0)"
  shows "cosineSimilarity a b = Inr 0"
  using assms by (auto simp: cosineSimilarity_exact sum_squares_zero Let_def)

subsection \<open>A vector of another length\<close>

text \<open>
  Claim C4 fails on the code: \<open>cosineSimilarity\<close> throws on vectors of different
  lengths and neither \<open>findSimilar\<close> nor the handler catches it. With an index whose
  vectors have lengths 2 and 1, the request for the notes similar to \<open>A.md\<close> ends in
  the exception; no \<open>ToolResult\<close> is returned.
\<close>

theorem handleSearchSimilar_mismatch_throws:
  "handleSearchSimilar similarToA (JObject [(''notePath'', JString ''A.md'')]) mixedContext
     = Inl (Error ''Vector dimension mismatch: 2 vs 1'')"
  by (simp add: handleSearchSimilar_def similarToA_def mixedContext_def mixedIndex_def
        example_eval validateLimit_def findSimilarToNote_def
        cosineSimilarity_def showNat_1 showNat_2 search_eval)

subsection \<open>The loop of \<open>findSimilar\<close>\<close>

lemma findLoop_results:
  "findLoop q opts ents acc = Inr rs \<Longrightarrow>
     \<exists>new. rs = acc @ new \<and> subseq (map path new) (map fst ents)
       \<and> (\<forall>h \<in> set new. \<exists>entry s. (path h, entry) \<in> set ents
              \<and> cosineSimilarity q (embedding entry) = Inr s \<and> threshold opts \<le> s
              \<and> score h = roundScore s
              \<and> \<not> (truthyString (excludePath opts) \<and> Some (path h) = excludePath opts))"
proof (induction q opts ents acc arbitrary: rs rule: findLoop.induct)
  case (1 q opts results)
  then show ?case by simp
next
  case (2 q opts notePath entry rest results)
  show ?case
  proof (cases "truthyString (excludePath opts) \<and> Some notePath = excludePath opts")
    case True
    with "2.prems" have "findLoop q opts rest results = Inr rs" by simp
    from "2.IH"(1) [OF True this] obtain new where
      "rs = results @ new" "subseq (map path new) (map fst rest)"
      "\<forall>h \<in> set new. \<exists>entry s. (path h, entry) \<in> set rest
              \<and> cosineSimilarity q (embedding entry) = Inr s \<and> threshold opts \<le> s
              \<and> score h = roundScore s
              \<and> \<not> (truthyString (excludePath opts) \<and> Some (path h) = excludePath opts)"
      by blast
    then show ?thesis
      by (intro exI [of _ new] conjI) (simp, simp add: list_emb_Cons, simp, meson)
  next
    case False
    from "2.prems" False obtain s where s: "cosineSimilarity q (embedding entry) = Inr s"
      by (auto split: sum.splits)
    show ?thesis
    proof (cases "threshold opts \<le> s")
      case True
      define h where
        "h = \<lparr>path = notePath, title = extractTitle notePath, score = roundScore s\<rparr>"
      from "2.prems" False s True
      have "findLoop q opts rest (results @ [h]) = Inr rs" by (simp add: h_def)
      from "2.IH"(2) [OF False s True this [unfolded h_def]] obtain new where new:
        "rs = (results @ [h]) @ new" "subseq (map path new) (map fst rest)"
        "\<forall>h \<in> set new. \<exists>entry s. (path h, entry) \<in> set rest
              \<and> cosineSimilarity q (embedding entry) = Inr s \<and> threshold opts \<le> s
              \<and> score h = roundScore s
              \<and> \<not> (truthyString (excludePath opts) \<and> Some (path h) = excludePath opts)"
        unfolding h_def by blast
      have "subseq (map path (h # new)) (map fst ((notePath, entry) # rest))"
        using new(2) by (simp add: h_def)
      moreover have "\<forall>h' \<in> set (h # new). \<exists>entry' s'.
                (path h', entry') \<in> set ((notePath, entry) # rest)
              \<and> cosineSimilarity q (embedding entry') = Inr s' \<and> threshold opts \<le> s'
              \<and> score h' = roundScore s'
              \<and> \<not> (truthyString (excludePath opts) \<and> Some (path h') = excludePath opts)"
      proof
        fix h' assume "h' \<in> set (h # new)"
        then consider "h' = h" | "h' \<in> set new" by auto
        then show "\<exists>entry' s'. (path h', entry') \<in> set ((notePath, entry) # rest)
              \<and> cosineSimilarity q (embedding entry') = Inr s' \<and> threshold opts \<le> s'
              \<and> score h' = roundScore s'
              \<and> \<not> (truthyString (excludePath opts) \<and> Some (path h') = excludePath opts)"
        proof cases
          case 1
          with s True False show ?thesis
            by (intro exI [of _ entry] exI [of _ s]) (auto simp: h_def)
        next
          case 2
          with new(3) show ?thesis by (simp, meson)
        qed
      qed
      ultimately show ?thesis using new(1) by (intro exI [of _ "h # new"]) simp
    next
      case nt: False
      with "2.prems" False s have "findLoop q opts rest results = Inr rs" by simp
      from "2.IH"(3) [OF False s nt this] obtain new where
        "rs = results @ new" "subseq (map path new) (map fst rest)"
        "\<forall>h \<in> set new. \<exists>entry s. (path h, entry) \<in> set rest
              \<and> cosineSimilarity q (embedding entry) = Inr s \<and> threshold opts \<le> s
              \<and> score h = roundScore s
              \<and> \<not> (truthyString (excludePath opts) \<and> Some (path h) = excludePath opts)"
        by blast
      then show ?thesis
        by (intro exI [of _ new] conjI) (simp, simp add: list_emb_Cons, simp, meson)
    qed
  qed
qed

lemma cosineSimilarity_total:
  "length a = length b \<Longrightarrow> \<exists>s. cosineSimilarity a b = Inr s"
  by (simp add: cosineSimilarity_def Let_def split: prod.splits)

lemma findLoop_total:
  "\<forall>ke \<in> set ents. length (embedding (snd ke)) = length q \<Longrightarrow>
     \<exists>rs. findLoop q opts ents acc = Inr rs"
proof (induction q opts ents acc rule: findLoop.induct)
  case (1 q opts results)
  then show ?case by simp
next
  case (2 q opts notePath entry rest results)
  from "2.prems" have "length q = length (embedding entry)" by simp
  from cosineSimilarity_total [OF this] obtain s where
    s: "cosineSimilarity q (embedding entry) = Inr s" ..
  from "2.prems" have rest: "\<forall>ke \<in> set rest. length (embedding (snd ke)) = length q"
    by simp
  show ?case
  proof (cases "truthyString (excludePath opts) \<and> Some notePath = excludePath opts")
    case True
    with "2.IH"(1) [OF True rest] show ?thesis by simp
  next
    case False
    show ?thesis
    proof (cases "threshold opts \<le> s")
      case True
      with "2.IH"(2) [OF False s True rest] False s show ?thesis by auto
    next
      case nt: False
      with "2.IH"(3) [OF False s nt rest] False s show ?thesis by auto
    qed
  qed
qed

lemma slice0_take: "\<exists>n. slice0 xs l = take n xs"
  by (auto simp: slice0_def)

lemma slice0_length: "0 \<le> l \<Longrightarrow> int (length (slice0 xs l)) \<le> l"
  by (simp add: slice0_def)

lemma findSimilar_hits:
  assumes "findSimilar q ents opts = Inr hits"
  obtains rs n where "findLoop q opts ents [] = Inr rs"
    and "hits = take n (sort_key (\<lambda>r. - score r) rs)"
proof -
  from assms obtain rs where rs: "findLoop q opts ents [] = Inr rs"
    and h: "hits = slice0 (sortByScore rs) (limit opts)"
    by (auto simp: findSimilar_def split: sum.splits)
  from slice0_take obtain n where
    "slice0 (sortByScore rs) (limit opts) = take n (sortByScore rs)"
    by blast
  with rs h that show ?thesis by (simp add: sortByScore_def)
qed

lemma findSimilar_nearIndex:
  "findSimilar [1, 0] nearIndex \<lparr>limit = 10, threshold = 0, excludePath = None\<rparr>
       = Inr [\<lparr>path = ''A.md'', title = ''A'', score = 1\<rparr>,
              \<lparr>path = ''B.md'', title = ''B'', score = 1\<rparr>]"
  by (simp add: nearIndex_def cosineSimilarity_def sqrt_100020001 search_eval)

lemma findSimilar_pairIndex:
  "findSimilar [1, 0] pairIndex
     \<lparr>limit = 10, threshold = 3 / 10, excludePath = Some ''A.md''\<rparr>
       = Inr [\<lparr>path = ''B.md'', title = ''B'', score = 724 / 1000\<rparr>]"
  by (simp add: pairIndex_def cosineSimilarity_def sqrt_841 search_eval)

subsection \<open>The order of the hits\<close>

text \<open>
  Claim C5 as stated fails: \<open>findSimilar\<close> rounds each score before it sorts, and the
  comparator reads the rounded field. Against the query \<open>[1, 0]\<close> the entry \<open>A.md\<close> has
  the cosine \<open>9999/10001\<close> and \<open>B.md\<close> has the cosine \<open>1\<close>; both are presented as \<open>1\<close>,
  and \<open>A.md\<close>, first in the index, stays before \<open>B.md\<close>.
\<close>

theorem findSimilar_order_counterexample:
  "cosineSimilarity [1, 0] [9999, 200] = Inr (9999 / 10001)
   \<and> cosineSimilarity [1, 0] [1, 0] = Inr 1
   \<and> findSimilar [1, 0] nearIndex \<lparr>limit = 10, threshold = 0, excludePath = None\<rparr>
       = Inr [\<lparr>path = ''A.md'', title = ''A'', score = 1\<rparr>,
              \<lparr>path = ''B.md'', title = ''B'', score = 1\<rparr>]"
  by (simp add: nearIndex_def cosineSimilarity_def sqrt_100020001 search_eval)

text \<open>
  Claim C5, amended. The hits that \<open>findSimilar\<close> returns are in descending order of
  their presented scores, the cosines rounded to 3 decimal places; the hits that share
  a presented score \<open>k\<close> are in the iteration order of the index, whatever their
  unrounded scores.
\<close>

theorem findSimilar_sorted_by_presented_score:
  "findSimilar q ents opts = Inr hits \<Longrightarrow>
     sorted_wrt (\<lambda>a b. score a \<ge> score b) hits
     \<and> (\<forall>k. subseq (map path (filter (\<lambda>h. score h = k) hits)) (map fst ents))"
proof
  assume a: "findSimilar q ents opts = Inr hits"
  from a obtain rs n where rs: "findLoop q opts ents [] = Inr rs"
    and hits: "hits = take n (sort_key (\<lambda>r. - score r) rs)"
    by (rule findSimilar_hits)
  have "sorted (map (\<lambda>r. - score r) (sort_key (\<lambda>r. - score r) rs))"
    by (rule sorted_sort_key)
  then have "sorted_wrt (\<lambda>a b. score a \<ge> score b) (sort_key (\<lambda>r. - score r) rs)"
    by (simp add: sorted_map)
  then show "sorted_wrt (\<lambda>a b. score a \<ge> score b) hits"
    unfolding hits by (rule sorted_wrt_take)
  show "\<forall>k. subseq (map path (filter (\<lambda>h. score h = k) hits)) (map fst ents)"
  proof
    fix k
    let ?P = "\<lambda>h. score h = k"
    let ?s = "sort_key (\<lambda>r. - score r) rs"
    have "prefix (take n ?s) ?s" by (rule take_is_prefix)
    then have "subseq (filter ?P hits) (filter ?P ?s)"
      unfolding hits by (intro subseq_filter prefix_imp_subseq)
    moreover have "filter ?P ?s = filter ?P rs"
    proof -
      have "filter (\<lambda>h. - score h = - k) ?s = filter (\<lambda>h. - score h = - k) rs"
        by (rule sort_key_stable)
      then show ?thesis by simp
    qed
    ultimately have "subseq (filter ?P hits) rs"
      using subseq_filter_left [of ?P rs] by (simp add: subseq_order.trans)
    then have 1: "subseq (map path (filter ?P hits)) (map path rs)"
      by (rule subseq_map)
    from findLoop_results [OF rs] have 2: "subseq (map path rs) (map fst ents)"
      by auto
    from 1 2 show "subseq (map path (filter ?P hits)) (map fst ents)"
      by (rule subseq_order.trans)
  qed
qed

theorem findSimilar_sorted_by_presented_score_witness:
  "findSimilar [1, 0] nearIndex \<lparr>limit = 10, threshold = 0, excludePath = None\<rparr>
     = Inr [\<lparr>path = ''A.md'', title = ''A'', score = 1\<rparr>,
            \<lparr>path = ''B.md'', title = ''B'', score = 1\<rparr>]
   \<and> sorted_wrt (\<lambda>a b. score a \<ge> score b)
        [\<lparr>path = ''A.md'', title = ''A'', score = 1\<rparr>,
         \<lparr>path = ''B.md'', title = ''B'', score = 1\<rparr>]
   \<and> subseq (map path (filter (\<lambda>h. score h = 1)
                 [\<lparr>path = ''A.md'', title = ''A'', score = 1\<rparr>,
                  \<lparr>path = ''B.md'', title = ''B'', score = 1\<rparr>]))
        (map fst nearIndex)"
  using findSimilar_sorted_by_presented_score [OF findSimilar_nearIndex] findSimilar_nearIndex
  by blast

subsection \<open>Limit, threshold and exclusion\<close>

text \<open>
  Claim C6 as stated fails: the threshold is compared with the unrounded cosine, and
  the hit carries the rounded one. With the threshold \<open>0.7241\<close> the entry of cosine
  \<open>21/29\<close> is kept and presented with the score \<open>0.724\<close>, which is below the threshold.
\<close>

theorem findSimilar_threshold_counterexample:
  "findSimilar [1, 0] roundedDownIndex
     \<lparr>limit = 10, threshold = 7241 / 10000, excludePath = None\<rparr>
       = Inr [\<lparr>path = ''B.md'', title = ''B'', score = 724 / 1000\<rparr>]
   \<and> (724 / 1000 :: real) < 7241 / 10000"
  by (simp add: roundedDownIndex_def cosineSimilarity_def sqrt_841 search_eval)

text \<open>
  Claim C6, amended. For every query vector, index, limit that is not negative,
  threshold, and exclude identifier that is absent or not the empty string:
  \<open>findSimilar\<close> returns a sequence of hits when every vector of the index has the
  length of the query; and in a sequence it returns, the length is at most the limit,
  every hit is an entry of the index whose unrounded cosine is at least the threshold,
  its score being that cosine rounded to 3 decimal places, and no hit has the exclude
  identifier as its path.
\<close>

theorem findSimilar_limit_threshold_exclude:
  assumes "0 \<le> limit opts" and "excludePath opts \<noteq> Some []"
  shows "((\<forall>ke \<in> set ents. length (embedding (snd ke)) = length q) \<longrightarrow>
            (\<exists>hits. findSimilar q ents opts = Inr hits))
         \<and> (findSimilar q ents opts = Inr hits \<longrightarrow>
              int (length hits) \<le> limit opts
              \<and> (\<forall>h \<in> set hits. \<exists>entry s. (path h, entry) \<in> set ents
                     \<and> cosineSimilarity q (embedding entry) = Inr s
                     \<and> threshold opts \<le> s \<and> score h = roundScore s)
              \<and> (\<forall>h \<in> set hits. Some (path h) \<noteq> excludePath opts))"
proof (intro conjI impI)
  assume "\<forall>ke \<in> set ents. length (embedding (snd ke)) = length q"
  from findLoop_total [OF this] obtain rs where "findLoop q opts ents [] = Inr rs"
    by blast
  then show "\<exists>hits. findSimilar q ents opts = Inr hits"
    by (simp add: findSimilar_def)
next
  assume fs: "findSimilar q ents opts = Inr hits"
  then obtain rs where rs: "findLoop q opts ents [] = Inr rs"
    and hits: "hits = slice0 (sortByScore rs) (limit opts)"
    by (auto simp: findSimilar_def split: sum.splits)
  show "int (length hits) \<le> limit opts"
    unfolding hits using assms(1) by (rule slice0_length)
  have sub: "set hits \<subseteq> set rs"
  proof -
    from slice0_take obtain n where "hits = take n (sortByScore rs)"
      unfolding hits by blast
    then show ?thesis using set_take_subset [of n "sortByScore rs"]
      by (simp add: sortByScore_def)
  qed
  from findLoop_results [OF rs]
  have kept: "\<forall>h \<in> set rs. \<exists>entry s. (path h, entry) \<in> set ents
              \<and> cosineSimilarity q (embedding entry) = Inr s \<and> threshold opts \<le> s
              \<and> score h = roundScore s
              \<and> \<not> (truthyString (excludePath opts) \<and> Some (path h) = excludePath opts)"
    by auto
  show "\<forall>h \<in> set hits. \<exists>entry s. (path h, entry) \<in> set ents
                  \<and> cosineSimilarity q (embedding entry) = Inr s
                  \<and> threshold opts \<le> s \<and> score h = roundScore s"
    using sub kept by blast
  show "\<forall>h \<in> set hits. Some (path h) \<noteq> excludePath opts"
  proof
    fix h assume "h \<in> set hits"
    with sub kept
    have "\<not> (truthyString (excludePath opts) \<and> Some (path h) = excludePath opts)"
      by blast
    with assms(2) show "Some (path h) \<noteq> excludePath opts"
      by (auto simp: truthyString_def)
  qed
qed

theorem findSimilar_limit_threshold_exclude_witness:
  "map (\<lambda>ke. length (embedding (snd ke))) pairIndex = [length [1, 0 :: real], 2]
   \<and> findSimilar [1, 0] pairIndex
       \<lparr>limit = 10, threshold = 3 / 10, excludePath = Some ''A.md''\<rparr>
       = Inr [\<lparr>path = ''B.md'', title = ''B'', score = 724 / 1000\<rparr>]
   \<and> int (length [\<lparr>path = ''B.md'', title = ''B'', score = 724 / 1000\<rparr>]) \<le> 10
   \<and> list_all (\<lambda>h. Some (path h) \<noteq> Some ''A.md'')
        [\<lparr>path = ''B.md'', title = ''B'', score = 724 / 1000\<rparr>]"
proof -
  let ?opts = "\<lparr>limit = 10, threshold = 3 / 10, excludePath = Some ''A.md''\<rparr>"
  let ?hits = "[\<lparr>path = ''B.md'', title = ''B'', score = 724 / 1000\<rparr>]"
  have h1: "0 \<le> limit ?opts" by simp
  have h2: "excludePath ?opts \<noteq> Some []" by simp
  have len: "map (\<lambda>ke. length (embedding (snd ke))) pairIndex = [length [1, 0 :: real], 2]"
    by (simp add: pairIndex_def entryOf_def)
  from findSimilar_limit_threshold_exclude [OF h1 h2, of pairIndex "[1, 0]" ?hits]
    findSimilar_pairIndex
  have "int (length ?hits) \<le> limit ?opts
      \<and> (\<forall>h \<in> set ?hits. \<exists>entry s. (path h, entry) \<in> set pairIndex
             \<and> cosineSimilarity [1, 0] (embedding entry) = Inr s
             \<and> threshold ?opts \<le> s \<and> score h = roundScore s)
      \<and> (\<forall>h \<in> set ?hits. Some (path h) \<noteq> excludePath ?opts)"
    by blast
  then have "int (length ?hits) \<le> 10
      \<and> list_all (\<lambda>h. Some (path h) \<noteq> Some ''A.md'') ?hits"
    by simp
  with len findSimilar_pairIndex show ?thesis by blast
qed

section \<open>The query vector\<close>

lemma firstInvalidIndex_Some:
  "firstInvalidIndex i xs = Some j \<Longrightarrow>
     i \<le> j \<and> j - i < length xs \<and> \<not> isFiniteNumber (xs ! (j - i))
     \<and> (\<forall>m < j - i. isFiniteNumber (xs ! m))"
proof (induction xs arbitrary: i)
  case Nil
  then show ?case by simp
next
  case (Cons x xs)
  show ?case
  proof (cases "isFiniteNumber x")
    case False
    with Cons.prems show ?thesis by simp
  next
    case True
    with Cons.prems have "firstInvalidIndex (Suc i) xs = Some j" by simp
    from Cons.IH [OF this]
    have ih: "Suc i \<le> j" "j - Suc i < length xs" "\<not> isFiniteNumber (xs ! (j - Suc i))"
      "\<forall>m < j - Suc i. isFiniteNumber (xs ! m)" by auto
    from ih(1) have d: "j - i = Suc (j - Suc i)" by simp
    from ih True show ?thesis
      unfolding d by (auto simp: nth_Cons')
  qed
qed

lemma firstInvalidIndex_None:
  "firstInvalidIndex i xs = None \<longleftrightarrow> (\<forall>x \<in> set xs. isFiniteNumber x)"
  by (induction xs arbitrary: i) auto

lemma isFiniteNumber_iff: "isFiniteNumber v \<longleftrightarrow> (\<exists>r. v = JNumber (Finite r))"
  by (cases v rule: isFiniteNumber.cases) auto

lemma validateEmbedding_nonfinite:
  assumes "length xs = dims" and "i < length xs" and "\<not> isFiniteNumber (xs ! i)"
  shows "\<exists>j \<le> i. validateEmbedding (JArray xs) dims
                   = invalid (''Invalid value at index '' @ showNat j)
            \<and> \<not> isFiniteNumber (xs ! j) \<and> (\<forall>m < j. isFiniteNumber (xs ! m))"
proof -
  from assms(2,3) have "firstInvalidIndex 0 xs \<noteq> None"
    by (auto simp: firstInvalidIndex_None)
  then obtain j where j: "firstInvalidIndex 0 xs = Some j" by auto
  from firstInvalidIndex_Some [OF j]
  have p: "j < length xs" "\<not> isFiniteNumber (xs ! j)" "\<forall>m < j. isFiniteNumber (xs ! m)"
    by auto
  with assms(3) have "j \<le> i" by (meson not_le)
  with j p assms(1) show ?thesis by (auto simp: validateEmbedding_def)
qed

lemma validateEmbedding_valid:
  assumes "valid (validateEmbedding v dims)"
  shows "\<exists>ys. v = JArray ys \<and> length ys = dims
           \<and> (\<forall>y \<in> set ys. \<exists>r. y = JNumber (Finite r))"
  using assms
  by (cases v)
     (auto simp: validateEmbedding_def invalid_def firstInvalidIndex_None isFiniteNumber_iff
           split: if_splits option.splits)

text \<open>
  Claim C10. When an array has the expected length and holds NaN or an infinity at
  index \<open>i\<close>, \<open>validateEmbedding\<close> returns the invalid outcome that names the first
  index \<open>j\<close> holding a value that is not a finite number; \<open>j\<close> is at most \<open>i\<close>, and is
  \<open>i\<close> when every element before \<open>i\<close> is a finite number. A valid outcome implies that
  every element is a finite number. \<open>handleSearchByEmbedding\<close> answers a query of the
  right length that holds such a value with that error as its \<open>ToolResult\<close>.
\<close>

theorem validateEmbedding_finite_only:
  "(length xs = dims \<and> i < length xs
      \<and> xs ! i \<in> {JNumber NaN, JNumber PosInfinity, JNumber NegInfinity} \<longrightarrow>
      (\<exists>j \<le> i. validateEmbedding (JArray xs) dims
                  = invalid (''Invalid value at index '' @ showNat j)
              \<and> \<not> isFiniteNumber (xs ! j) \<and> (\<forall>m < j. isFiniteNumber (xs ! m))))
   \<and> (valid (validateEmbedding v dims) \<longrightarrow>
      (\<exists>ys. v = JArray ys \<and> length ys = dims
            \<and> (\<forall>y \<in> set ys. \<exists>r. y = JNumber (Finite r))))
   \<and> (safeParse args = Inr (q, l, t) \<and> length q = dimensions (modelInfo (data ctx))
        \<and> n < length q \<and> q ! n \<in> {NaN, PosInfinity, NegInfinity} \<longrightarrow>
      (\<exists>j \<le> n. handleSearchByEmbedding safeParse args ctx
                  = Inr (ErrorResult (''Invalid value at index '' @ showNat j))))"
proof (intro conjI impI)
  assume a: "length xs = dims \<and> i < length xs
      \<and> xs ! i \<in> {JNumber NaN, JNumber PosInfinity, JNumber NegInfinity}"
  then have "\<not> isFiniteNumber (xs ! i)" by auto
  with a show "\<exists>j \<le> i. validateEmbedding (JArray xs) dims
                  = invalid (''Invalid value at index '' @ showNat j)
              \<and> \<not> isFiniteNumber (xs ! j) \<and> (\<forall>m < j. isFiniteNumber (xs ! m))"
    by (intro validateEmbedding_nonfinite) auto
next
  assume "valid (validateEmbedding v dims)"
  then show "\<exists>ys. v = JArray ys \<and> length ys = dims
               \<and> (\<forall>y \<in> set ys. \<exists>r. y = JNumber (Finite r))"
    by (rule validateEmbedding_valid)
next
  assume a: "safeParse args = Inr (q, l, t) \<and> length q = dimensions (modelInfo (data ctx))
        \<and> n < length q \<and> q ! n \<in> {NaN, PosInfinity, NegInfinity}"
  then have "\<not> isFiniteNumber (map JNumber q ! n)" by auto
  with a have "\<exists>j \<le> n.
       validateEmbedding (JArray (map JNumber q)) (dimensions (modelInfo (data ctx)))
         = invalid (''Invalid value at index '' @ showNat j)
       \<and> \<not> isFiniteNumber (map JNumber q ! j)
       \<and> (\<forall>m < j. isFiniteNumber (map JNumber q ! m))"
    by (intro validateEmbedding_nonfinite) auto
  then obtain j where "j \<le> n"
     "validateEmbedding (JArray (map JNumber q)) (dimensions (modelInfo (data ctx)))
        = invalid (''Invalid value at index '' @ showNat j)" by blast
  with a show "\<exists>j \<le> n. handleSearchByEmbedding safeParse args ctx
                  = Inr (ErrorResult (''Invalid value at index '' @ showNat j))"
    by (auto simp: handleSearchByEmbedding_def invalid_def)
qed

theorem validateEmbedding_finite_only_witness:
  "validateEmbedding (JArray [JNumber (Finite 1), JNumber NaN]) 2
     = invalid ''Invalid value at index 1''
   \<and> (\<exists>j \<le> 1. validateEmbedding (JArray [JNumber (Finite 1), JNumber NaN]) 2
                  = invalid (''Invalid value at index '' @ showNat j)
              \<and> \<not> isFiniteNumber ([JNumber (Finite 1), JNumber NaN] ! j))
   \<and> (\<exists>j \<le> 1. handleSearchByEmbedding nanQuery JNull tinyContext
                  = Inr (ErrorResult (''Invalid value at index '' @ showNat j)))"
proof -
  let ?xs = "[JNumber (Finite 1), JNumber NaN]"
  have e: "validateEmbedding (JArray ?xs) 2 = invalid ''Invalid value at index 1''"
    by (simp add: validateEmbedding_def showNat_1)
  have h1: "length ?xs = 2 \<and> 1 < length ?xs
      \<and> ?xs ! 1 \<in> {JNumber NaN, JNumber PosInfinity, JNumber NegInfinity}"
    by simp
  have h2: "nanQuery JNull = Inr ([Finite 1, NaN], 10, 3 / 10)
      \<and> length [Finite 1, NaN] = dimensions (modelInfo (data tinyContext))
      \<and> 1 < length [Finite 1, NaN] \<and> [Finite 1, NaN] ! 1 \<in> {NaN, PosInfinity, NegInfinity}"
    by (simp add: nanQuery_def tinyContext_def)
  from validateEmbedding_finite_only
         [where xs = ?xs and dims = 2 and i = 1 and safeParse = nanQuery and args = JNull
            and q = "[Finite 1, NaN]" and l = 10 and t = "3 / 10" and ctx = tinyContext
            and n = 1] h1 h2
  have "(\<exists>j \<le> 1. validateEmbedding (JArray ?xs) 2
                  = invalid (''Invalid value at index '' @ showNat j)
              \<and> \<not> isFiniteNumber (?xs ! j))
      \<and> (\<exists>j \<le> 1. handleSearchByEmbedding nanQuery JNull tinyContext
                  = Inr (ErrorResult (''Invalid value at index '' @ showNat j)))"
    by blast
  with e show ?thesis by blast
qed

section \<open>Reading a note\<close>







section \<open>The loader\<close>

subsection \<open>The repair of a fragment\<close>

lemma endsWith_comma: "endsWith s '','' = (s \<noteq> [] \<and> last s = CHR '','')"
  by (cases s rule: rev_cases) (auto simp: endsWith_def suffix_def)

lemma spec_repair_code:
  "''{'' @ (if endsWith c '','' then take (length c - 1) c else c) @ ''}'' = spec_repair c"
  by (simp add: spec_repair_def endsWith_comma butlast_conv_take)

lemma spec_repair_comma: "spec_repair (body @ '','') = ''{'' @ body @ ''}''"
  by (simp add: spec_repair_def)

lemma parseAjsonFile_repair:
  assumes "readFileSync fs filePath = Inr raw" and "trim raw \<noteq> []"
  shows "parseAjsonFile P fs filePath k =
           (case P (spec_repair (trim raw)) of
              Inl e \<Rightarrow> Inr []
            | Inr parsed \<Rightarrow>
                (case objectEntries parsed of
                   Inl e \<Rightarrow> Inl e
                 | Inr kvs \<Rightarrow> parseLoop k kvs []))"
  using assms spec_repair_code [of "trim raw"]
  by (simp add: parseAjsonFile_def Let_def)

lemma parseAjsonFile_unparsable:
  assumes "readFileSync fs filePath = Inr raw" and "P (spec_repair (trim raw)) = Inl e"
  shows "parseAjsonFile P fs filePath k = Inr []"
proof (cases "trim raw = []")
  case True
  with assms(1) show ?thesis by (simp add: parseAjsonFile_def)
next
  case False
  with assms show ?thesis by (simp add: parseAjsonFile_repair)
qed

subsection \<open>The records of a parsed fragment\<close>

lemma includes_hash: "includesStr s ''#'' = (CHR ''#'' \<in> set s)"
  by (induction s) (auto simp: includesStr_def sublist_Cons_right)

lemma recordVector_wellFormed:
  assumes "wellFormedValue v"
  shows "recordVector k v = Inr (spec_vector k v)"
proof -
  from assms obtain props where v: "v = JObject props"
    by (cases v) auto
  show ?thesis
  proof (cases "map_of props ''embeddings''")
    case None
    then show ?thesis by (simp add: v recordVector_def nullish_def)
  next
    case (Some emb)
    with assms v obtain models where emb: "emb = JObject models"
      and all: "list_all (\<lambda>md. case snd md of JObject modelData \<Rightarrow> True | _ \<Rightarrow> False) models"
      by (cases emb) auto
    show ?thesis
    proof (cases "map_of models k")
      case None
      with Some emb show ?thesis by (simp add: v recordVector_def nullish_def)
    next
      case inner: (Some d)
      then have "(k, d) \<in> set models" by (rule map_of_SomeD)
      with all obtain modelData where d: "d = JObject modelData"
        by (cases d) (auto simp: list_all_iff)
      from Some emb inner d show ?thesis
        by (simp add: v recordVector_def nullish_def split: option.splits jsvalue.splits)
    qed
  qed
qed

lemma update_fresh: "k \<notin> fst ` set al \<Longrightarrow> AList.update k v al = al @ [(k, v)]"
  by (induction al) auto

lemma spec_document_Some:
  "spec_document k kv = Some de \<Longrightarrow>
     startsWith (fst kv) sourcesPrefix \<and> fst de = drop (length sourcesPrefix) (fst kv)"
  by (auto simp: spec_document_def Let_def split: if_splits option.splits)

lemma parseLoop_documents:
  assumes "\<forall>kv \<in> set kvs. wellFormedValue (snd kv)"
    and "distinct (map fst kvs)"
    and "\<forall>kv \<in> set kvs. startsWith (fst kv) sourcesPrefix \<longrightarrow>
           drop (length sourcesPrefix) (fst kv) \<notin> fst ` set ents"
  shows "parseLoop k kvs ents = Inr (ents @ List.map_filter (spec_document k) kvs)"
  using assms
proof (induction kvs arbitrary: ents)
  case Nil
  then show ?case by simp
next
  case (Cons kv kvs)
  obtain fullKey v where kv: "kv = (fullKey, v)" by (cases kv)
  define documentId where "documentId = drop (length sourcesPrefix) fullKey"
  from Cons.prems(1) kv have rv: "recordVector k v = Inr (spec_vector k v)"
    by (simp add: recordVector_wellFormed)
  have keep: "parseLoop k kvs ents = Inr (ents @ List.map_filter (spec_document k) kvs)"
    using Cons.prems by (intro Cons.IH) auto
  show ?case
  proof (cases "startsWith fullKey sourcesPrefix \<and> CHR ''#'' \<notin> set documentId
                  \<and> spec_vector k v \<noteq> None")
    case False
    then have "spec_document k kv = None"
      by (auto simp: spec_document_def kv documentId_def Let_def)
    moreover from False rv have "parseLoop k (kv # kvs) ents = parseLoop k kvs ents"
      by (auto simp: kv includes_hash documentId_def Let_def)
    ultimately show ?thesis using keep by simp
  next
    case True
    then obtain xs where sw: "startsWith fullKey sourcesPrefix"
      and nh: "CHR ''#'' \<notin> set documentId" and sv: "spec_vector k v = Some xs"
      by auto
    define e where
      "e = \<lparr>EmbeddingEntry.path = documentId, embedding = xs,
            blocks = getProp v ''blocks''\<rparr>"
    have doc: "spec_document k kv = Some (documentId, e)"
      using sw nh sv by (simp add: spec_document_def kv documentId_def e_def Let_def)
    have fresh: "documentId \<notin> fst ` set ents"
      using Cons.prems(3) kv sw by (simp add: documentId_def)
    have full: "fullKey = sourcesPrefix @ documentId"
      using sw by (auto simp: startsWith_def prefix_def documentId_def)
    have rest_fresh: "\<forall>kv' \<in> set kvs. startsWith (fst kv') sourcesPrefix \<longrightarrow>
        drop (length sourcesPrefix) (fst kv') \<notin> fst ` set (ents @ [(documentId, e)])"
    proof (intro ballI impI)
      fix kv' assume m: "kv' \<in> set kvs" and p: "startsWith (fst kv') sourcesPrefix"
      from p have f': "fst kv' = sourcesPrefix @ drop (length sourcesPrefix) (fst kv')"
        by (auto simp: startsWith_def prefix_def)
      from Cons.prems(2) kv m have "fst kv' \<noteq> fullKey" by auto
      with f' full have "drop (length sourcesPrefix) (fst kv') \<noteq> documentId" by metis
      moreover from Cons.prems(3) m p
      have "drop (length sourcesPrefix) (fst kv') \<notin> fst ` set ents" by simp
      ultimately show "drop (length sourcesPrefix) (fst kv')
                         \<notin> fst ` set (ents @ [(documentId, e)])"
        by auto
    qed
    have step: "parseLoop k (kv # kvs) ents = parseLoop k kvs (ents @ [(documentId, e)])"
      using sw nh rv sv update_fresh [OF fresh]
      by (simp add: kv includes_hash documentId_def [symmetric] e_def)
    have "parseLoop k kvs (ents @ [(documentId, e)])
            = Inr ((ents @ [(documentId, e)]) @ List.map_filter (spec_document k) kvs)"
      using Cons.prems(1,2) rest_fresh by (intro Cons.IH) auto
    with step doc show ?thesis by simp
  qed
qed

lemma documents_distinct:
  assumes "distinct (map fst kvs)"
  shows "distinct (map fst (List.map_filter (spec_document k) kvs))"
  using assms
proof (induction kvs)
  case Nil
  then show ?case by simp
next
  case (Cons kv kvs)
  show ?case
  proof (cases "spec_document k kv")
    case None
    with Cons show ?thesis by simp
  next
    case (Some de)
    from spec_document_Some [OF Some]
    have kv: "fst kv = sourcesPrefix @ fst de"
      by (auto simp: startsWith_def prefix_def)
    have "fst de \<notin> fst ` set (List.map_filter (spec_document k) kvs)"
    proof
      assume "fst de \<in> fst ` set (List.map_filter (spec_document k) kvs)"
      then obtain kv' de' where m: "kv' \<in> set kvs" and s: "spec_document k kv' = Some de'"
        and eq: "fst de' = fst de"
        by (auto simp: List.map_filter_def)
      from spec_document_Some [OF s] have "fst kv' = sourcesPrefix @ fst de'"
        by (auto simp: startsWith_def prefix_def)
      with eq kv have "fst kv' = fst kv" by simp
      with m have "fst kv \<in> fst ` set kvs" by (metis imageI)
      with Cons.prems show False by simp
    qed
    with Cons Some show ?thesis by simp
  qed
qed

lemma parseAjsonFile_documents:
  assumes "readFileSync fs filePath = Inr raw" "trim raw \<noteq> []"
    "P (spec_repair (trim raw)) = Inr (JObject kvs)" "distinct (map fst kvs)"
    "\<forall>kv \<in> set kvs. wellFormedValue (snd kv)"
  shows "parseAjsonFile P fs filePath k = Inr (List.map_filter (spec_document k) kvs)"
proof -
  have "parseLoop k kvs [] = Inr ([] @ List.map_filter (spec_document k) kvs)"
    using assms(4,5) by (intro parseLoop_documents) auto
  with assms(1-3) show ?thesis by (simp add: parseAjsonFile_repair)
qed

subsection \<open>The loop over the fragments\<close>

lemma loadLoop_append:
  "loadLoop P fs mp k (xs @ ys) ents = loadLoop P fs mp k ys (loadLoop P fs mp k xs ents)"
  by (induction xs arbitrary: ents) (auto split: sum.splits)

lemma loadLoop_skip:
  assumes "parseAjsonFile P fs (join mp bad) k = Inr []"
  shows "loadLoop P fs mp k (before @ bad # after) ents
           = loadLoop P fs mp k (before @ after) ents"
  using assms by (simp add: loadLoop_append)

lemma fold_update_keys:
  "fst ` set (fold (\<lambda>(key, entry) m. AList.update key entry m) es ents)
     = fst ` set es \<union> fst ` set ents"
proof (induction es arbitrary: ents)
  case Nil
  then show ?case by simp
next
  case (Cons x es)
  obtain key entry where x: "x = (key, entry)" by (cases x)
  have "fst ` set (AList.update key entry ents) = insert key (fst ` set ents)"
    using dom_update [of key entry ents] by simp
  with Cons.IH [of "AList.update key entry ents"] show ?case
    by (auto simp: x)
qed

lemma fold_update_other:
  "d \<notin> fst ` set es \<Longrightarrow>
   map_of (fold (\<lambda>(key, entry) m. AList.update key entry m) es ents) d = map_of ents d"
proof (induction es arbitrary: ents)
  case Nil
  then show ?case by simp
next
  case (Cons x es)
  obtain key entry where x: "x = (key, entry)" by (cases x)
  from Cons.prems x have "d \<noteq> key" "d \<notin> fst ` set es" by auto
  with Cons.IH [of "AList.update key entry ents"] show ?case
    by (simp add: x update_conv')
qed

lemma fold_update_stored:
  "distinct (map fst es) \<Longrightarrow> (d, entry) \<in> set es \<Longrightarrow>
   map_of (fold (\<lambda>(key, entry) m. AList.update key entry m) es ents) d = Some entry"
proof (induction es arbitrary: ents)
  case Nil
  then show ?case by simp
next
  case (Cons x es)
  obtain key e where x: "x = (key, e)" by (cases x)
  show ?case
  proof (cases "d = key")
    case True
    with Cons.prems x have notin: "d \<notin> fst ` set es" by auto
    with Cons.prems(2) x True have "entry = e" by (auto simp: image_iff)
    with fold_update_other [OF notin, of "AList.update key e ents"] True show ?thesis
      by (simp add: x update_conv')
  next
    case False
    with Cons.prems x have "(d, entry) \<in> set es" "distinct (map fst es)" by auto
    with Cons.IH [of "AList.update key e ents"] show ?thesis by (simp add: x)
  qed
qed

lemma loadLoop_other:
  assumes "\<forall>g \<in> set frags. \<forall>es. parseAjsonFile P fs (join mp g) k = Inr es
             \<longrightarrow> d \<notin> fst ` set es"
  shows "map_of (loadLoop P fs mp k frags ents) d = map_of ents d"
  using assms
proof (induction frags arbitrary: ents)
  case Nil
  then show ?case by simp
next
  case (Cons g frags)
  show ?case
  proof (cases "parseAjsonFile P fs (join mp g) k")
    case (Inl e)
    with Cons show ?thesis by simp
  next
    case (Inr es)
    with Cons.prems have "d \<notin> fst ` set es" by simp
    from fold_update_other [OF this] Cons.IH Cons.prems Inr show ?thesis by simp
  qed
qed

lemma loadLoop_stored:
  assumes "parseAjsonFile P fs (join mp frag) k = Inr es" and "distinct (map fst es)"
    and "(d, entry) \<in> set es"
    and "\<forall>g \<in> set later. \<forall>es'. parseAjsonFile P fs (join mp g) k = Inr es'
           \<longrightarrow> d \<notin> fst ` set es'"
  shows "map_of (loadLoop P fs mp k (earlier @ frag # later) ents) d = Some entry"
proof -
  let ?mid = "loadLoop P fs mp k earlier ents"
  let ?ents' = "fold (\<lambda>(key, entry) m. AList.update key entry m) es ?mid"
  have "loadLoop P fs mp k (earlier @ frag # later) ents = loadLoop P fs mp k later ?ents'"
    using assms(1) by (simp add: loadLoop_append)
  moreover have "map_of (loadLoop P fs mp k later ?ents') d = map_of ?ents' d"
    using assms(4) by (rule loadLoop_other)
  moreover have "map_of ?ents' d = Some entry"
    using assms(2,3) by (rule fold_update_stored)
  ultimately show ?thesis by simp
qed

lemma loadEmbeddings_listed:
  assumes "existsSync fs (join env ''multi'')"
    and "readdirSync fs (join env ''multi'') = Inr names"
  shows "loadEmbeddings P fs env k
           = Inr (loadLoop P fs (join env ''multi'') k
                    (filter (\<lambda>f. endsWith f ''.ajson'') names) [])"
  using assms by (simp add: loadEmbeddings_def Let_def)

lemma loadLoop_keeps_keys:
  "fst ` set ents \<subseteq> fst ` set (loadLoop P fs mp k frags ents)"
proof (induction frags arbitrary: ents)
  case Nil
  then show ?case by simp
next
  case (Cons frag frags)
  show ?case
  proof (cases "parseAjsonFile P fs (join mp frag) k")
    case (Inl e)
    with Cons.IH [of ents] show ?thesis by simp
  next
    case (Inr es)
    let ?ents' = "fold (\<lambda>(key, entry) m. AList.update key entry m) es ents"
    have "fst ` set ents \<subseteq> fst ` set ?ents'" by (simp add: fold_update_keys)
    with Cons.IH [of ?ents'] Inr show ?thesis by auto
  qed
qed

lemma loadLoop_contributes:
  assumes "parseAjsonFile P fs (join mp frag) k = Inr es"
  shows "fst ` set es \<subseteq> fst ` set (loadLoop P fs mp k (earlier @ frag # later) ents)"
proof -
  let ?mid = "loadLoop P fs mp k earlier ents"
  let ?ents' = "fold (\<lambda>(key, entry) m. AList.update key entry m) es ?mid"
  have "loadLoop P fs mp k (earlier @ frag # later) ents = loadLoop P fs mp k later ?ents'"
    using assms by (simp add: loadLoop_append)
  moreover have "fst ` set es \<subseteq> fst ` set ?ents'" by (simp add: fold_update_keys)
  ultimately show ?thesis using loadLoop_keeps_keys [of ?ents' P fs mp k later] by auto
qed

subsection \<open>Recovery\<close>

text \<open>
  Claim C8. A fragment is read through its repaired text: the content, trimmed,
  without a single trailing comma, wrapped in braces, parsed as one JSON object. When
  the records of that object are well-formed, the fragment yields exactly its document
  records that carry a vector of the active model, in order; block records, records
  whose key has a \<open>#\<close> and documents of another model are passed over and do not end
  the reading. A fragment whose repaired text does not parse yields no entry and no
  exception, and \<open>loadEmbeddings\<close> returns the index of the other fragments. A fragment
  of the directory that ends with a dangling comma and whose text without the comma
  parses in braces to well-formed records yields all those documents; each is a key of
  the index that \<open>loadEmbeddings\<close> returns, with the entry of this fragment unless a
  later fragment defines the same document.
\<close>

theorem parseAjsonFile_recovers_fragments:
  "(readFileSync fs filePath = Inr raw \<and> trim raw \<noteq> []
      \<and> P (spec_repair (trim raw)) = Inr (JObject kvs) \<and> distinct (map fst kvs)
      \<and> (\<forall>kv \<in> set kvs. wellFormedValue (snd kv)) \<longrightarrow>
    parseAjsonFile P fs filePath k = Inr (List.map_filter (spec_document k) kvs))
   \<and> (existsSync fs (join env ''multi'')
      \<and> readdirSync fs (join env ''multi'') = Inr (before @ bad # after)
      \<and> readFileSync fs (join (join env ''multi'') bad) = Inr raw'
      \<and> P (spec_repair (trim raw')) = Inl e \<longrightarrow>
    parseAjsonFile P fs (join (join env ''multi'') bad) k = Inr []
    \<and> loadEmbeddings P fs env k
        = Inr (loadLoop P fs (join env ''multi'') k
                 (filter (\<lambda>f. endsWith f ''.ajson'') (before @ after)) []))
   \<and> (existsSync fs (join env ''multi'')
      \<and> readdirSync fs (join env ''multi'') = Inr (earlier @ frag # later)
      \<and> endsWith frag ''.ajson''
      \<and> readFileSync fs (join (join env ''multi'') frag) = Inr raw''
      \<and> trim raw'' = body @ '','' \<and> P (''{'' @ body @ ''}'') = Inr (JObject recs)
      \<and> distinct (map fst recs) \<and> (\<forall>kv \<in> set recs. wellFormedValue (snd kv)) \<longrightarrow>
    parseAjsonFile P fs (join (join env ''multi'') frag) k
      = Inr (List.map_filter (spec_document k) recs)
    \<and> (\<exists>idx. loadEmbeddings P fs env k = Inr idx
          \<and> (\<forall>de \<in> set (List.map_filter (spec_document k) recs).
                fst de \<in> fst ` set idx
                \<and> ((\<forall>g \<in> set later. endsWith g ''.ajson'' \<longrightarrow>
                       (\<forall>es. parseAjsonFile P fs (join (join env ''multi'') g) k = Inr es
                          \<longrightarrow> fst de \<notin> fst ` set es))
                   \<longrightarrow> map_of idx (fst de) = Some (snd de)))))"
proof (intro conjI impI)
  assume "readFileSync fs filePath = Inr raw \<and> trim raw \<noteq> []
      \<and> P (spec_repair (trim raw)) = Inr (JObject kvs) \<and> distinct (map fst kvs)
      \<and> (\<forall>kv \<in> set kvs. wellFormedValue (snd kv))"
  then show "parseAjsonFile P fs filePath k = Inr (List.map_filter (spec_document k) kvs)"
    by (intro parseAjsonFile_documents) auto
next
  let ?mp = "join env ''multi''"
  let ?aj = "\<lambda>f. endsWith f ''.ajson''"
  assume a: "existsSync fs ?mp \<and> readdirSync fs ?mp = Inr (before @ bad # after)
      \<and> readFileSync fs (join ?mp bad) = Inr raw' \<and> P (spec_repair (trim raw')) = Inl e"
  then show z: "parseAjsonFile P fs (join ?mp bad) k = Inr []"
    by (auto intro: parseAjsonFile_unparsable)
  have "loadLoop P fs ?mp k (filter ?aj (before @ bad # after)) []
          = loadLoop P fs ?mp k (filter ?aj (before @ after)) []"
    using loadLoop_skip [OF z, of "filter ?aj before" "filter ?aj after" "[]"] by simp
  with a show "loadEmbeddings P fs env k
        = Inr (loadLoop P fs ?mp k (filter ?aj (before @ after)) [])"
    by (simp add: loadEmbeddings_listed)
next
  let ?mp = "join env ''multi''"
  let ?aj = "\<lambda>f. endsWith f ''.ajson''"
  let ?docs = "List.map_filter (spec_document k) recs"
  assume a: "existsSync fs ?mp \<and> readdirSync fs ?mp = Inr (earlier @ frag # later)
      \<and> endsWith frag ''.ajson'' \<and> readFileSync fs (join ?mp frag) = Inr raw''
      \<and> trim raw'' = body @ '','' \<and> P (''{'' @ body @ ''}'') = Inr (JObject recs)
      \<and> distinct (map fst recs) \<and> (\<forall>kv \<in> set recs. wellFormedValue (snd kv))"
  then have "P (spec_repair (trim raw'')) = Inr (JObject recs)"
    by (simp add: spec_repair_comma)
  with a show p: "parseAjsonFile P fs (join ?mp frag) k = Inr ?docs"
    by (intro parseAjsonFile_documents) auto
  define idx where
    "idx = loadLoop P fs ?mp k (filter ?aj earlier @ frag # filter ?aj later) []"
  from a have le: "loadEmbeddings P fs env k = Inr idx"
    by (simp add: loadEmbeddings_listed idx_def)
  from a have dd: "distinct (map fst ?docs)" by (simp add: documents_distinct)
  have "\<forall>de \<in> set ?docs.
          fst de \<in> fst ` set idx
          \<and> ((\<forall>g \<in> set later. endsWith g ''.ajson'' \<longrightarrow>
                 (\<forall>es. parseAjsonFile P fs (join ?mp g) k = Inr es
                    \<longrightarrow> fst de \<notin> fst ` set es))
             \<longrightarrow> map_of idx (fst de) = Some (snd de))"
  proof (intro ballI conjI impI)
    fix de assume m: "de \<in> set ?docs"
    from loadLoop_contributes [OF p, of "filter ?aj earlier" "filter ?aj later" "[]"] m
    show "fst de \<in> fst ` set idx" unfolding idx_def by auto
    assume "\<forall>g \<in> set later. endsWith g ''.ajson'' \<longrightarrow>
                 (\<forall>es. parseAjsonFile P fs (join ?mp g) k = Inr es
                    \<longrightarrow> fst de \<notin> fst ` set es)"
    then have l: "\<forall>g \<in> set (filter ?aj later).
                 \<forall>es. parseAjsonFile P fs (join ?mp g) k = Inr es
                    \<longrightarrow> fst de \<notin> fst ` set es"
      by auto
    from m have "(fst de, snd de) \<in> set ?docs" by simp
    from loadLoop_stored [OF p dd this l]
    show "map_of idx (fst de) = Some (snd de)" unfolding idx_def .
  qed
  with le show "\<exists>idx. loadEmbeddings P fs env k = Inr idx
          \<and> (\<forall>de \<in> set ?docs.
                fst de \<in> fst ` set idx
                \<and> ((\<forall>g \<in> set later. endsWith g ''.ajson'' \<longrightarrow>
                       (\<forall>es. parseAjsonFile P fs (join ?mp g) k = Inr es
                          \<longrightarrow> fst de \<notin> fst ` set es))
                   \<longrightarrow> map_of idx (fst de) = Some (snd de)))"
    by blast
qed

lemma multi_path: "join ''/env'' ''multi'' = ''/env/multi''"
  by (simp add: path_eval)

lemma good_path: "join ''/env/multi'' ''good.ajson'' = ''/env/multi/good.ajson''"
  by (simp add: path_eval)

lemma bad_path: "join ''/env/multi'' ''bad.ajson'' = ''/env/multi/bad.ajson''"
  by (simp add: path_eval)

lemma good_trim: "trim goodFragment = goodBody @ '',''"
  by (simp add: goodFragment_def goodBody_def trim_def isWhiteSpace_def)

lemma good_documents: "List.map_filter (spec_document ''m'') goodRecords = goodEntries"
  by (simp add: goodRecords_def goodEntries_def vecOf_def spec_document_def
        sourcesPrefix_def startsWith_def Let_def)

lemma good_wellFormed:
  "distinct (map fst goodRecords) \<and> (\<forall>kv \<in> set goodRecords. wellFormedValue (snd kv))"
  by (simp add: goodRecords_def vecOf_def)

theorem parseAjsonFile_recovers_fragments_witness:
  "parseAjsonFile fragmentParse fragmentFs ''/env/multi/good.ajson'' ''m'' = Inr goodEntries
   \<and> map fst goodEntries = [''A.md'', ''C.md'']
   \<and> parseAjsonFile fragmentParse fragmentFs ''/env/multi/bad.ajson'' ''m'' = Inr []
   \<and> loadEmbeddings fragmentParse fragmentFs ''/env'' ''m'' = Inr goodEntries
   \<and> map_of goodEntries ''C.md''
       = Some \<lparr>EmbeddingEntry.path = ''C.md'',
                embedding = [JNumber (Finite 0), JNumber (Finite 1)],
                blocks = JObject [(''#h'', JArray [JNumber (Finite 1),
                                                   JNumber (Finite 2)])]\<rparr>"
proof -
  let ?mp = "join ''/env'' ''multi''"
  have dir: "existsSync fragmentFs ?mp
      \<and> readdirSync fragmentFs ?mp = Inr ([] @ ''bad.ajson'' # [''good.ajson'', ''notes.txt''])"
    by (simp add: fragmentFs_def)
  have dir': "existsSync fragmentFs ?mp
      \<and> readdirSync fragmentFs ?mp = Inr ([''bad.ajson''] @ ''good.ajson'' # [''notes.txt''])"
    by (simp add: fragmentFs_def)
  have b: "readFileSync fragmentFs (join ?mp ''bad.ajson'') = Inr ''not json''
      \<and> fragmentParse (spec_repair (trim ''not json'')) = Inl (SyntaxError ''Unexpected token'')"
    by (simp add: multi_path bad_path fragmentFs_def fragmentParse_def spec_repair_def
          trim_def isWhiteSpace_def goodBody_def)
  have g: "endsWith ''good.ajson'' ''.ajson''
      \<and> readFileSync fragmentFs (join ?mp ''good.ajson'') = Inr goodFragment
      \<and> trim goodFragment = goodBody @ '',''
      \<and> fragmentParse (''{'' @ goodBody @ ''}'') = Inr (JObject goodRecords)"
    by (simp add: multi_path good_path fragmentFs_def good_trim fragmentParse_def
          goodObject_def endsWith_def suffix_to_prefix)
  from parseAjsonFile_recovers_fragments
         [where fs = fragmentFs and P = fragmentParse and env = "''/env''"
            and bad = "''bad.ajson''" and raw' = "''not json''"
            and e = "SyntaxError ''Unexpected token''" and k = "''m''"
            and before = "[]" and after = "[''good.ajson'', ''notes.txt'']"] dir b
  have r2: "parseAjsonFile fragmentParse fragmentFs (join ?mp ''bad.ajson'') ''m'' = Inr []
      \<and> loadEmbeddings fragmentParse fragmentFs ''/env'' ''m''
          = Inr (loadLoop fragmentParse fragmentFs ?mp ''m''
                   (filter (\<lambda>f. endsWith f ''.ajson'') ([] @ [''good.ajson'', ''notes.txt''])) [])"
    by blast
  from parseAjsonFile_recovers_fragments
         [where fs = fragmentFs and P = fragmentParse and env = "''/env''"
            and frag = "''good.ajson''" and raw'' = goodFragment and body = goodBody
            and recs = goodRecords and k = "''m''"
            and earlier = "[''bad.ajson'']" and later = "[''notes.txt'']"] dir' g good_wellFormed
  have r3: "parseAjsonFile fragmentParse fragmentFs (join ?mp ''good.ajson'') ''m''
        = Inr (List.map_filter (spec_document ''m'') goodRecords)"
    by blast
  from r3 have p: "parseAjsonFile fragmentParse fragmentFs ''/env/multi/good.ajson'' ''m''
                     = Inr goodEntries"
    by (simp add: multi_path good_path good_documents)
  from r2 p have l: "loadEmbeddings fragmentParse fragmentFs ''/env'' ''m'' = Inr goodEntries"
    by (simp add: multi_path good_path endsWith_def suffix_to_prefix goodEntries_def)
  from r2 have q: "parseAjsonFile fragmentParse fragmentFs ''/env/multi/bad.ajson'' ''m''
                     = Inr []"
    by (simp add: multi_path bad_path)
  from p q l show ?thesis by (simp add: goodEntries_def)
qed

end
